theory Spec2Isabelle
  imports Main "HOL-Library.AList" "HOL-Library.Sublist"
begin

section \<open>The workflow store of keep-ui (entities/workflows/model/workflow-store.ts)\<close>

text \<open>
  The store holds one document: a list of graph nodes, a list of edges, the trigger
  properties and the definition rebuilt from them. Every command reads the current state
  and writes a new one. A command is modelled as a function from the state to a result
  paired with the state the store holds when the command is left: \<open>Inr v\<close> for a
  returned value, \<open>Inl e\<close> for a thrown error.
\<close>

subsection \<open>Data\<close>

datatype json =
    JNull
  | JBool bool
  | JNum int
  | JStr string
  | JArr "json list"
  | JObj "(string \<times> json) list"

type_synonym props = "(string \<times> json) list"

text \<open>
  The errors a command can leave with: \<open>ZodError\<close> is thrown by a schema's \<open>parse\<close>,
  \<open>KeepWorkflowStoreError\<close> by the store itself (lines 59-64), \<open>TypeError\<close> by the
  JavaScript runtime on a property access through \<open>undefined\<close>.
\<close>

datatype error =
    ZodError string
  | KeepWorkflowStoreError string
  | TypeError string

record Position =
  x :: int
  y :: int

text \<open>
  The step data a node carries (\<open>FlowNode.data\<close>) and the flat fields of a step of the
  definition. \<open>islayouted\<close> is the lower-case key that \<open>deleteNodes\<close> writes at line 725;
  \<open>data_isLayouted\<close> is the key \<open>isLayouted\<close> that \<open>onLayout\<close> writes.
\<close>

record NodeData =
  step_id :: string
  name :: string
  step_type :: string
  componentType :: string
  properties :: props
  edgeLabel :: "string option"
  edgeColor :: "string option"
  edgeNotNeeded :: "bool option"
  data_isLayouted :: "bool option"
  islayouted :: "bool option"

text \<open>
  A step of the definition: its flat fields, the two branches of a switch
  (\<open>step.branches.true\<close>, \<open>step.branches.false\<close>) and the body of a container
  (\<open>step.sequence\<close>). The source reads the branches only of a step whose componentType is
  "switch" and the body only of one whose componentType is "container".
\<close>

datatype V2Step =
  V2Step (step_data: NodeData) (branches_true: "V2Step list")
         (branches_false: "V2Step list") (step_sequence: "V2Step list")

record FlowNode =
  node_id :: string
  node_type :: string
  position :: Position
  data :: NodeData
  isDraggable :: "bool option"
  isNested :: bool
  prevStepId :: "string option"

record Edge =
  edge_id :: string
  source :: string
  target :: string
  edge_type :: "string option"
  label :: "string option"
  style_stroke :: "string option"
  animated :: "bool option"
  edge_isLayouted :: "bool option"

record Definition =
  def_sequence :: "V2Step list"
  def_properties :: props

record WrappedDefinition =
  wrapped_value :: Definition
  wrapped_isValid :: bool

text \<open>A finding: its message and its severity ("error", "warning").\<close>

type_synonym ValidationError = "string \<times> string"

typedecl Provider

text \<open>
  The payload handed to the insert command. The command reads its truthiness and its
  \<open>componentType\<close> and gives the rest to a schema.
\<close>

record RawStep =
  raw_componentType :: string
  raw_payload :: json

text \<open>
  The values of the store that the modelled commands read or write
  (\<open>WorkflowStateValues\<close>, lines 282-308).
\<close>

record WorkflowState =
  nodes :: "FlowNode list"
  edges :: "Edge list"
  selectedNode :: "string option"
  selectedEdge :: "string option"
  v2Properties :: props
  editorOpen :: bool
  providers :: "Provider list option"
  installedProviders :: "Provider list option"
  secrets :: "(string \<times> string) list"
  isLayouted :: bool
  changes :: nat
  isEditorSyncedWithNodes :: bool
  lastChangedAt :: "int option"
  canDeploy :: bool
  wf_definition :: "WrappedDefinition option"
  validationErrors :: "(string \<times> ValidationError) list"

text \<open>
  What the store imports and \<open>src/\<close> does not hold, taken as parameters: the two schemas,
  the four edge predicates of the builder, the compiler \<open>processWorkflowV2\<close>, the edge and
  node constructors, the decompiler \<open>reConstructWorklowToDefinition\<close>, the two validators,
  \<open>wrapDefinitionV2\<close>, \<open>addEdge\<close> of the graph library, the position the external layout
  algorithm gives a node, and the values \<open>uuidv4()\<close> and \<open>Date.now()\<close> return during
  the command.
\<close>

record deps =
  V2StepTriggerSchema_parse :: "RawStep \<Rightarrow> string + V2Step"
  V2StepTemplateSchema_parse :: "RawStep \<Rightarrow> string + V2Step"
  canAddTriggerBeforeEdge :: "string \<Rightarrow> string \<Rightarrow> bool"
  canAddConditionBeforeEdge :: "string \<Rightarrow> string \<Rightarrow> bool"
  canAddForeachBeforeEdge :: "string \<Rightarrow> string \<Rightarrow> bool"
  canAddStepBeforeEdge :: "string \<Rightarrow> string \<Rightarrow> bool"
  processWorkflowV2 :: "V2Step list \<Rightarrow> Position \<Rightarrow> bool \<Rightarrow> FlowNode list \<times> Edge list"
  createCustomEdgeMeta :: "string \<Rightarrow> string \<Rightarrow> string option \<Rightarrow> Edge list"
  createDefaultNodeV2 :: "NodeData \<Rightarrow> string \<Rightarrow> FlowNode"
  reConstructWorklowToDefinition :: "FlowNode list \<Rightarrow> Edge list \<Rightarrow> props \<Rightarrow> V2Step list \<times> props"
  validateGlobalPure :: "Definition \<Rightarrow> (string \<times> string) list"
  validateStepPure ::
    "V2Step \<Rightarrow> Provider list \<Rightarrow> Provider list \<Rightarrow> (string \<times> string) list \<Rightarrow> Definition
      \<Rightarrow> ValidationError list"
  wrapDefinitionV2 :: "Definition \<Rightarrow> bool \<Rightarrow> WrappedDefinition"
  addEdge :: "Edge \<Rightarrow> Edge list \<Rightarrow> Edge list"
  layoutPosition :: "FlowNode list \<Rightarrow> Edge list \<Rightarrow> string \<Rightarrow> FlowNode \<Rightarrow> Position"
  uuidv4 :: string
  Date_now :: int

subsection \<open>Array and string primitives\<close>

text \<open>\<open>Array.prototype.findIndex\<close>: the first index whose element passes, \<open>None\<close> for -1.\<close>

primrec findIndex :: "('a \<Rightarrow> bool) \<Rightarrow> 'a list \<Rightarrow> nat option" where
  "findIndex P [] = None"
| "findIndex P (a # as) =
     (if P a then Some 0 else map_option Suc (findIndex P as))"

text \<open>\<open>Array.prototype.slice(b, e)\<close> for indices that are not negative.\<close>

definition slice :: "nat \<Rightarrow> nat \<Rightarrow> 'a list \<Rightarrow> 'a list" where
  "slice b e as = take (e - b) (drop b as)"

text \<open>\<open>String.prototype.includes\<close>: the second string occurs in the first.\<close>

primrec str_includes :: "string \<Rightarrow> string \<Rightarrow> bool" where
  "str_includes [] sub = (sub = [])"
| "str_includes (c # cs) sub = (prefix sub (c # cs) \<or> str_includes cs sub)"

text \<open>\<open>obj?.[k] ?? dflt\<close> on an object: the default for a missing key and for null.\<close>

definition lookup_or :: "props \<Rightarrow> string \<Rightarrow> json \<Rightarrow> json" where
  "lookup_or obj k dflt =
     (case map_of obj k of None \<Rightarrow> dflt | Some JNull \<Rightarrow> dflt | Some v \<Rightarrow> v)"

definition PROTECTED_NODE_IDS :: "string list" where
  "PROTECTED_NODE_IDS = [''start'', ''end'', ''trigger_start'', ''trigger_end'']"

subsection \<open>Validation (lines 463-532)\<close>

text \<open>
  \<open>validationErrors[key] = finding\<close> on a plain JavaScript object, for a finding that is
  an array: an existing key keeps its place and takes the new value, a new key goes
  last. The key "__proto__" is the accessor of \<open>Object.prototype\<close>: the assignment makes
  the finding the prototype of the object and adds no property of its own, so that
  \<open>Object.values\<close> (line 527) and every reader of the record's entries never see it.
  JavaScript lists keys that read as integers before the others; the order of the
  findings plays no part in what the store computes from them. \<open>step.name || step.id\<close> is
  the id when the name is empty.
\<close>

definition assign :: "string \<Rightarrow> 'v \<Rightarrow> (string \<times> 'v) list \<Rightarrow> (string \<times> 'v) list" where
  "assign key v obj = (if key = ''__proto__'' then obj else AList.update key v obj)"

definition step_key :: "V2Step \<Rightarrow> string" where
  "step_key s = (if name (step_data s) = [] then step_id (step_data s) else name (step_data s))"

text \<open>
  One round of the inner \<open>forEach\<close> (lines 487-500, 503-515) and the tail of the outer
  loop body (lines 517-520): the first finding of a step, if it has one, is stored under
  the step's key and \<open>isValid\<close> becomes false.
\<close>

definition record_first ::
  "V2Step \<Rightarrow> ValidationError list \<Rightarrow> bool \<times> (string \<times> ValidationError) list
    \<Rightarrow> bool \<times> (string \<times> ValidationError) list" where
  "record_first s errors acc =
     (case errors of [] \<Rightarrow> acc
      | e # _ \<Rightarrow> (False, assign (step_key s) e (snd acc)))"

definition validateStep ::
  "deps \<Rightarrow> WorkflowState \<Rightarrow> Definition \<Rightarrow> V2Step \<Rightarrow> ValidationError list" where
  "validateStep d st definition s =
     validateStepPure d s
       (case providers st of None \<Rightarrow> [] | Some ps \<Rightarrow> ps)
       (case installedProviders st of None \<Rightarrow> [] | Some ps \<Rightarrow> ps)
       (secrets st) definition"

definition validate_nested ::
  "deps \<Rightarrow> WorkflowState \<Rightarrow> Definition \<Rightarrow> V2Step list
    \<Rightarrow> bool \<times> (string \<times> ValidationError) list \<Rightarrow> bool \<times> (string \<times> ValidationError) list" where
  "validate_nested d st definition ss acc =
     foldl (\<lambda>a s. record_first s (validateStep d st definition s) a) acc ss"

text \<open>The body of the loop over \<open>definition.sequence\<close> (lines 477-521).\<close>

definition validate_top ::
  "deps \<Rightarrow> WorkflowState \<Rightarrow> Definition \<Rightarrow> bool \<times> (string \<times> ValidationError) list \<Rightarrow> V2Step
    \<Rightarrow> bool \<times> (string \<times> ValidationError) list" where
  "validate_top d st definition acc s =
     (let errors = validateStep d st definition s;
          acc1 = (if componentType (step_data s) = ''switch''
                  then validate_nested d st definition (branches_true s @ branches_false s) acc
                  else acc);
          acc2 = (if componentType (step_data s) = ''container''
                  then validate_nested d st definition (step_sequence s) acc1
                  else acc1)
      in record_first s errors acc2)"

record ValidationResult =
  res_isValid :: bool
  res_validationErrors :: "(string \<times> ValidationError) list"
  res_canDeploy :: bool

definition validateDefinition :: "deps \<Rightarrow> WorkflowState \<Rightarrow> Definition \<Rightarrow> ValidationResult" where
  "validateDefinition d st definition =
     (let result = validateGlobalPure d definition;
          globals = foldl (\<lambda>ve (key, err). assign key (err, ''error'') ve) [] result;
          isValid0 = (length result = 0);
          (isValid, ves) = foldl (validate_top d st definition) (isValid0, globals)
                             (def_sequence definition);
          canDeploy = (length (filter (\<lambda>(_, severity). severity = ''error'') (map snd ves)) = 0)
      in \<lparr> res_isValid = isValid, res_validationErrors = ves, res_canDeploy = canDeploy \<rparr>)"

text \<open>
  What the loops of lines 477-521 check and store, written as lists: the steps one round
  of the outer loop validates, in the order in which their findings are stored (the
  branches of a switch, the sequence of a container, then the step itself); the finding
  a step contributes (the first of \<open>validateStepPure\<close>, under the step's key); all the
  findings of a definition, the global ones first, in the order in which they are
  stored; and the writes \<open>validationErrors[key] = finding\<close> done one after the other.
\<close>

definition checked_steps :: "V2Step \<Rightarrow> V2Step list" where
  "checked_steps s =
     (if componentType (step_data s) = ''switch'' then branches_true s @ branches_false s else [])
     @ (if componentType (step_data s) = ''container'' then step_sequence s else [])
     @ [s]"

definition step_finding ::
  "deps \<Rightarrow> WorkflowState \<Rightarrow> Definition \<Rightarrow> V2Step \<Rightarrow> (string \<times> ValidationError) list" where
  "step_finding d st definition s =
     (case validateStep d st definition s of [] \<Rightarrow> [] | e # _ \<Rightarrow> [(step_key s, e)])"

definition findings ::
  "deps \<Rightarrow> WorkflowState \<Rightarrow> Definition \<Rightarrow> (string \<times> ValidationError) list" where
  "findings d st definition =
     map (\<lambda>(key, err). (key, (err, ''error''))) (validateGlobalPure d definition)
     @ concat (map (step_finding d st definition)
                 (concat (map checked_steps (def_sequence definition))))"



subsection \<open>Rebuilding the definition (lines 435-462)\<close>

definition updateDefinition :: "deps \<Rightarrow> WorkflowState \<Rightarrow> WorkflowState" where
  "updateDefinition d st =
     (let (sequence, newProperties) =
            reConstructWorklowToDefinition d (nodes st) (edges st) (v2Properties st);
          definition = \<lparr> def_sequence = sequence, def_properties = newProperties \<rparr>;
          r = validateDefinition d st definition
      in st \<lparr> wf_definition := Some (wrapDefinitionV2 d definition (res_isValid r)),
              validationErrors := res_validationErrors r,
              canDeploy := res_canDeploy r,
              isEditorSyncedWithNodes := True \<rparr>)"

subsection \<open>Layout (lines 794-833)\<close>

text \<open>
  Modelled from the spec: \<open>getLayoutedWorkflowElements\<close> (lib/getLayoutedWorkflowElements,
  not in \<open>src/\<close>). Section 4.5 of the specification: the position of every node is
  computed by an external deterministic layout algorithm that takes the direction; the
  pass keeps the nodes and the edges, their identity and their number, and changes
  positions only. The algorithm itself is the parameter \<open>layoutPosition\<close>.
\<close>

definition getLayoutedWorkflowElements ::
  "deps \<Rightarrow> FlowNode list \<Rightarrow> Edge list \<Rightarrow> string \<Rightarrow> FlowNode list \<times> Edge list" where
  "getLayoutedWorkflowElements d ns es direction =
     (map (\<lambda>n. n \<lparr> position := layoutPosition d ns es direction n \<rparr>) ns, es)"

record LayoutParams =
  direction :: string
  useInitialNodes :: bool
  initialNodes :: "FlowNode list"
  initialEdges :: "Edge list"

definition onLayout :: "deps \<Rightarrow> LayoutParams \<Rightarrow> WorkflowState \<Rightarrow> WorkflowState" where
  "onLayout d params st =
     (let ns = (if useInitialNodes params then initialNodes params else nodes st);
          es = (if useInitialNodes params then initialEdges params else edges st);
          (layoutedNodes0, layoutedEdges0) = getLayoutedWorkflowElements d ns es (direction params);
          layoutedEdges =
            map (\<lambda>edge. edge \<lparr> animated := Some (str_includes (target edge) ''empty''),
                               edge_isLayouted := Some True \<rparr>) layoutedEdges0;
          layoutedNodes =
            map (\<lambda>node. node \<lparr> data := (data node) \<lparr> data_isLayouted := Some True \<rparr> \<rparr>)
              layoutedNodes0
      in st \<lparr> nodes := layoutedNodes, edges := layoutedEdges, isLayouted := True \<rparr>)"

text \<open>The call \<open>get().onLayout({ direction: "DOWN" })\<close> with the defaults of line 797-799.\<close>

definition layout_down :: LayoutParams where
  "layout_down = \<lparr> direction = ''DOWN'', useInitialNodes = False,
                   initialNodes = [], initialEdges = [] \<rparr>"

subsection \<open>Deleting a node (lines 656-752)\<close>

text \<open>
  The argument of \<open>deleteNodes\<close> is tested with \<open>typeof ids !== "string"\<close> first, so it is
  either a string or something else.
\<close>

datatype ids_arg = StringId string | NotAString

definition trigger_kinds :: "string list" where
  "trigger_kinds = [''interval'', ''alert'', ''manual'', ''incident'']"

text \<open>
  Lines 697-719: for every edge that leaves the end of the range, one reconnection per
  edge that enters the start of the range, from that edge's source and with that edge's
  label. (\<open>new Set\<close> over the filtered edges removes nothing unless the same edge object
  is in the array twice, which a list of values cannot tell.)
\<close>

definition reconnect :: "deps \<Rightarrow> Edge list \<Rightarrow> Edge list \<Rightarrow> Edge list \<Rightarrow> Edge list" where
  "reconnect d sources targets finalEdges =
     foldl (\<lambda>acc edge.
              let tgt = (if source edge = ''trigger_start'' then ''trigger_end'' else target edge)
              in acc @ concat (map (\<lambda>s. createCustomEdgeMeta d (source s) tgt (label s)) sources))
       finalEdges targets"

text \<open>
  Lines 677-751, entered with the index of the target and the index of the end of its
  range. Line 722 writes through \<open>nodes[endIndex + 1]\<close>; when the range ends the list that
  is \<open>undefined\<close> and the write throws a \<open>TypeError\<close>, before anything is written. The
  position written at line 722 goes to the node that line 724 rebuilds and line 729
  leaves out, or, when the range is inverted, to a node that stays.
\<close>

definition delete_range ::
  "deps \<Rightarrow> string \<Rightarrow> nat \<Rightarrow> nat \<Rightarrow> WorkflowState \<Rightarrow> (error + string list) \<times> WorkflowState" where
  "delete_range d ids nodeStartIndex endIndex st =
     (let ns = nodes st;
          startNode = ns ! nodeStartIndex;
          endNode = ns ! endIndex;
          es = edges st;
          idArray = map node_id (slice nodeStartIndex (endIndex + 1) ns);
          finalEdges = filter (\<lambda>edge. \<not> (source edge \<in> set idArray
                                             \<or> target edge \<in> set idArray)) es;
          es1 = (if ids \<in> set trigger_kinds
                    \<and> list_ex (\<lambda>edge. source edge = ''trigger_start'' \<and> target edge \<noteq> ids) es
                 then filter (\<lambda>edge. source edge \<notin> set idArray) es
                 else es);
          sources = filter (\<lambda>edge. node_id startNode = target edge) es1;
          targets = filter (\<lambda>edge. node_id endNode = source edge) es1;
          finalEdges1 = reconnect d sources targets finalEdges
      in
        if \<not> endIndex + 1 < length ns
        then (Inl (TypeError ''Cannot set properties of undefined (setting position)''), st)
        else
          let ns1 = ns [endIndex + 1 := (ns ! (endIndex + 1)) \<lparr> position := \<lparr> x = 0, y = 0 \<rparr> \<rparr>];
              newNode = createDefaultNodeV2 d
                          ((data (ns1 ! (endIndex + 1))) \<lparr> islayouted := Some False \<rparr>)
                          (node_id (ns1 ! (endIndex + 1)));
              newNodes = take nodeStartIndex ns1 @ [newNode] @ drop (endIndex + 2) ns1;
              st1 = (if ids \<in> set trigger_kinds
                     then st \<lparr> v2Properties := AList.delete ids (v2Properties st) \<rparr>
                     else st);
              st2 = st1 \<lparr> edges := finalEdges1,
                          nodes := newNodes,
                          selectedNode := None,
                          isLayouted := False,
                          changes := changes st1 + 1,
                          lastChangedAt := Some (Date_now d),
                          editorOpen := True \<rparr>
          in (Inr [ids], updateDefinition d (onLayout d layout_down st2)))"

text \<open>
  Lines 656-676: the argument must be a string and no protected id; a target that is
  not in the node list is no error; the range runs from the target to the node with the
  derived id \<open><type>__end__<id>\<close> when the list has one, and is the target alone otherwise.
\<close>

definition end_index :: "FlowNode list \<Rightarrow> nat \<Rightarrow> nat" where
  "end_index ns nodeStartIndex =
     (let startNode = ns ! nodeStartIndex;
          customIdentifier = step_type (data startNode) @ ''__end__'' @ node_id startNode
      in case findIndex (\<lambda>node. node_id node = customIdentifier) ns of
           None \<Rightarrow> nodeStartIndex
         | Some i \<Rightarrow> i)"

definition deleteNodes ::
  "deps \<Rightarrow> ids_arg \<Rightarrow> WorkflowState \<Rightarrow> (error + string list) \<times> WorkflowState" where
  "deleteNodes d ids0 st =
     (case ids0 of
        NotAString \<Rightarrow> (Inr [], st)
      | StringId ids \<Rightarrow>
          if ids \<in> set PROTECTED_NODE_IDS
          then (Inl (KeepWorkflowStoreError ''Cannot delete protected node''), st)
          else
            (case findIndex (\<lambda>node. ids = node_id node) (nodes st) of
               None \<Rightarrow> (Inr [], st)
             | Some nodeStartIndex \<Rightarrow>
                 delete_range d ids nodeStartIndex (end_index (nodes st) nodeStartIndex) st))"

subsection \<open>Connecting two nodes (lines 554-604)\<close>

text \<open>The argument of \<open>onConnect\<close>: the ids of the two ends.\<close>

record Connection =
  conn_source :: string
  conn_target :: string

definition getNodeById :: "WorkflowState \<Rightarrow> string \<Rightarrow> FlowNode option" where
  "getNodeById st i = find (\<lambda>node. node_id node = i) (nodes st)"

definition canConnect ::
  "WorkflowState \<Rightarrow> string \<Rightarrow> FlowNode option \<Rightarrow> FlowNode option \<Rightarrow> bool" where
  "canConnect st src sourceNode targetNode =
     (case (sourceNode, targetNode) of
        (Some sn, Some tn) \<Rightarrow>
          if componentType (data sn) = ''switch''
          then length (filter (\<lambda>edge. source edge = src) (edges st)) < 2
          else if componentType (data sn) = ''container'' \<and> step_type (data sn) = ''foreach''
          then True
          else length (filter (\<lambda>edge. source edge = src) (edges st)) = 0
      | _ \<Rightarrow> False)"

text \<open>
  The edge handed to \<open>addEdge\<close>: \<open>{ ...connection, type: "custom-edge" }\<close>. It has no id,
  label or style of its own; \<open>addEdge\<close> (a parameter) decides the id.
\<close>

definition connection_edge :: "Connection \<Rightarrow> Edge" where
  "connection_edge c =
     \<lparr> edge_id = [], source = conn_source c, target = conn_target c,
       edge_type = Some ''custom-edge'', label = None, style_stroke = None,
       animated = None, edge_isLayouted = None \<rparr>"

definition onConnect :: "deps \<Rightarrow> Connection \<Rightarrow> WorkflowState \<Rightarrow> WorkflowState" where
  "onConnect d connection st =
     (let src = conn_source connection;
          tgt = conn_target connection;
          sourceNode = getNodeById st src;
          targetNode = getNodeById st tgt
      in if canConnect st src sourceNode targetNode
         then
           let st1 = st \<lparr> edges := addEdge d (connection_edge connection) (edges st) \<rparr>
           in st1 \<lparr> nodes :=
                      map (\<lambda>node.
                             if node_id node = tgt
                             then node \<lparr> prevStepId := Some src, isDraggable := Some False \<rparr>
                             else if node_id node = src
                             then node \<lparr> isDraggable := Some False \<rparr>
                             else node)
                        (nodes st1) \<rparr>
         else st)"

subsection \<open>Inserting a node (lines 78-276)\<close>

datatype anchor_type = AnchorNode | AnchorEdge

text \<open>The two placeholder steps of the scaffold handed to the compiler (lines 196-211).\<close>

definition temp_node :: "string \<Rightarrow> string option \<Rightarrow> string option \<Rightarrow> bool option \<Rightarrow> V2Step" where
  "temp_node i lbl color notNeeded =
     V2Step \<lparr> step_id = i, name = ''temp_node'', step_type = ''temp_node'',
              componentType = ''temp_node'', properties = [],
              edgeLabel = lbl, edgeColor = color, edgeNotNeeded = notNeeded,
              data_isLayouted = None, islayouted = None \<rparr> [] [] []"

text \<open>\<open>{ ...cloneStep, id: newNodeId }\<close>; the JSON round trip of line 190 copies the value.\<close>

definition with_id :: "V2Step \<Rightarrow> string \<Rightarrow> V2Step" where
  "with_id s i =
     V2Step ((step_data s) \<lparr> step_id := i \<rparr>) (branches_true s) (branches_false s)
       (step_sequence s)"

text \<open>
  Lines 241-270: a new node whose id is a trigger kind seeds the property store with
  the configuration the payload carried, or with the default of its kind.
\<close>

definition seed_properties :: "string \<Rightarrow> V2Step \<Rightarrow> WorkflowState \<Rightarrow> WorkflowState" where
  "seed_properties newNodeId newStep st =
     (if newNodeId = ''interval'' \<or> newNodeId = ''manual''
      then st \<lparr> v2Properties :=
                  AList.update newNodeId
                    (lookup_or (properties (step_data newStep)) newNodeId (JStr []))
                    (v2Properties st) \<rparr>
      else if newNodeId = ''alert'' \<or> newNodeId = ''incident''
      then st \<lparr> v2Properties :=
                  AList.update newNodeId
                    (lookup_or (properties (step_data newStep)) newNodeId (JObj []))
                    (v2Properties st) \<rparr>
      else st)"

text \<open>
  Lines 180-275, entered with the two ends of the anchor edge resolved and every check
  on the kind of edge passed. \<open>nodes[i]?.isNested\<close> with \<open>i = -1\<close> is undefined, which
  counts as false.
\<close>

definition splice ::
  "deps \<Rightarrow> bool \<Rightarrow> V2Step \<Rightarrow> Edge \<Rightarrow> string \<Rightarrow> string \<Rightarrow> WorkflowState
    \<Rightarrow> (error + string) \<times> WorkflowState" where
  "splice d isTriggerComponent step edge sourceId targetId st =
     (let ns = nodes st in
      case findIndex (\<lambda>node. node_id node = targetId) ns of
        None \<Rightarrow>
          (Inl (KeepWorkflowStoreError (''Target node with id '' @ targetId @ '' not found'')), st)
      | Some targetIndex \<Rightarrow>
          let sourceIndex = findIndex (\<lambda>node. node_id node = sourceId) ns;
              newNodeId = (if isTriggerComponent then step_id (step_data step) else uuidv4 d);
              newStep = with_id step newNodeId;
              es = edges st;
              (newNodes0, newEdges) =
                processWorkflowV2 d
                  [temp_node sourceId (label edge) (style_stroke edge) None,
                   newStep,
                   temp_node targetId None None (Some True)]
                  \<lparr> x = 0, y = 0 \<rparr> True;
              finalEdges = newEdges
                 @ filter (\<lambda>edge. \<not> (source edge = sourceId \<and> target edge = targetId)) es;
              nested = (isNested (ns ! targetIndex)
                          \<or> (case sourceIndex of None \<Rightarrow> False | Some i \<Rightarrow> isNested (ns ! i)));
              newNodes1 = map (\<lambda>node. node \<lparr> isNested := nested \<rparr>) newNodes0;
              newNodes = take targetIndex ns @ newNodes1 @ drop targetIndex ns;
              st1 = st \<lparr> edges := finalEdges,
                          nodes := newNodes,
                          isLayouted := False,
                          changes := changes st + 1,
                          lastChangedAt := Some (Date_now d) \<rparr>;
              st2 = seed_properties newNodeId newStep st1
          in (Inr newNodeId, updateDefinition d (onLayout d layout_down st2)))"

text \<open>
  Lines 121-178: the ends of the anchor edge, the redirection of an edge that leaves
  \<open>trigger_start\<close>, and the checks on what may be inserted where, in the order of the
  source. \<open>!sourceId\<close> holds of the empty string.
\<close>

definition insert_on_edge ::
  "deps \<Rightarrow> bool \<Rightarrow> V2Step \<Rightarrow> Edge \<Rightarrow> WorkflowState \<Rightarrow> (error + string) \<times> WorkflowState" where
  "insert_on_edge d isTriggerComponent step edge st =
     (let sourceId = source edge;
          targetId = (if sourceId = ''trigger_start'' then ''trigger_end'' else target edge)
      in
        if sourceId = []
        then (Inl (KeepWorkflowStoreError (''Source is not defined for edge '' @ edge_id edge)), st)
        else if targetId = []
        then (Inl (KeepWorkflowStoreError (''Target is not defined for edge '' @ edge_id edge)), st)
        else if isTriggerComponent \<and> \<not> canAddTriggerBeforeEdge d sourceId targetId
        then (Inl (KeepWorkflowStoreError (''Edge '' @ edge_id edge @ '' cannot add trigger'')), st)
        else if componentType (step_data step) = ''switch''
                \<and> \<not> canAddConditionBeforeEdge d sourceId targetId
        then (Inl (KeepWorkflowStoreError (''Edge '' @ edge_id edge @ '' cannot add condition'')), st)
        else if componentType (step_data step) = ''container''
                \<and> step_type (step_data step) = ''foreach''
                \<and> \<not> canAddForeachBeforeEdge d sourceId targetId
        then (Inl (KeepWorkflowStoreError (''Edge '' @ edge_id edge @ '' cannot add foreach'')), st)
        else if sourceId \<noteq> ''trigger_start'' \<and> isTriggerComponent
        then (Inl (KeepWorkflowStoreError
                (''Trigger is only allowed at the start of the workflow. Attempted to add trigger at edge ''
                   @ edge_id edge)), st)
        else if sourceId = ''trigger_start'' \<and> \<not> isTriggerComponent
        then (Inl (KeepWorkflowStoreError
                (''Only trigger can be added at the start of the workflow. Attempted to add step at edge ''
                   @ edge_id edge)), st)
        else if \<not> isTriggerComponent \<and> \<not> canAddStepBeforeEdge d sourceId targetId
        then (Inl (KeepWorkflowStoreError (''Edge '' @ edge_id edge @ '' cannot add step'')), st)
        else if isTriggerComponent
                \<and> find (\<lambda>node. step_id (step_data step) = node_id node) (nodes st) \<noteq> None
        then (Inl (KeepWorkflowStoreError
                (''Trigger of type '' @ step_type (step_data step) @ '' is already in the workflow'')), st)
        else splice d isTriggerComponent step edge sourceId targetId st)"

text \<open>
  Lines 102-119: the anchor resolves to the first edge into the node for a node anchor,
  to the edge of that id for an edge anchor.
\<close>

definition find_anchor :: "anchor_type \<Rightarrow> string \<Rightarrow> Edge list \<Rightarrow> Edge option" where
  "find_anchor type nodeOrEdgeId es =
     (case type of
        AnchorNode \<Rightarrow> find (\<lambda>edge. target edge = nodeOrEdgeId) es
      | AnchorEdge \<Rightarrow> find (\<lambda>edge. edge_id edge = nodeOrEdgeId) es)"

definition anchor_not_found :: "anchor_type \<Rightarrow> string \<Rightarrow> error" where
  "anchor_not_found type nodeOrEdgeId =
     (case type of
        AnchorNode \<Rightarrow> KeepWorkflowStoreError (''Edge with target '' @ nodeOrEdgeId @ '' not found'')
      | AnchorEdge \<Rightarrow> KeepWorkflowStoreError (''Edge with id '' @ nodeOrEdgeId @ '' not found''))"

text \<open>
  Lines 85-119: the payload and the anchor id must be there, the payload must pass the
  schema of its component type, and the anchor must resolve to an edge.
\<close>

definition addNodeBetween ::
  "deps \<Rightarrow> string \<Rightarrow> RawStep option \<Rightarrow> anchor_type \<Rightarrow> WorkflowState
    \<Rightarrow> (error + string) \<times> WorkflowState" where
  "addNodeBetween d nodeOrEdgeId rawStep0 type st =
     (case rawStep0 of
        None \<Rightarrow> (Inl (KeepWorkflowStoreError ''Step is not defined''), st)
      | Some rawStep \<Rightarrow>
          if nodeOrEdgeId = []
          then (Inl (KeepWorkflowStoreError ''Node or edge id is not defined''), st)
          else
            let isTriggerComponent = (raw_componentType rawStep = ''trigger'') in
            (case (if isTriggerComponent then V2StepTriggerSchema_parse d rawStep
                   else V2StepTemplateSchema_parse d rawStep) of
               Inl issues \<Rightarrow> (Inl (ZodError issues), st)
             | Inr step \<Rightarrow>
                 (case find_anchor type nodeOrEdgeId (edges st) of
                    None \<Rightarrow> (Inl (anchor_not_found type nodeOrEdgeId), st)
                  | Some edge \<Rightarrow> insert_on_edge d isTriggerComponent step edge st)))"

text \<open>
  The command of the store (lines 336-344): the insertion, then the new node is
  selected. A throw of the insertion leaves the command before the selection is set.
\<close>

definition store_addNodeBetween ::
  "deps \<Rightarrow> string \<Rightarrow> RawStep option \<Rightarrow> anchor_type \<Rightarrow> WorkflowState
    \<Rightarrow> (error + string) \<times> WorkflowState" where
  "store_addNodeBetween d nodeOrEdgeId rawStep0 type st =
     (case addNodeBetween d nodeOrEdgeId rawStep0 type st of
        (Inl e, st1) \<Rightarrow> (Inl e, st1)
      | (Inr newNodeId, st1) \<Rightarrow>
          (Inr newNodeId, st1 \<lparr> selectedNode := Some newNodeId, selectedEdge := None \<rparr>))"

section \<open>The compiler and the decompiler of the specification\<close>

text \<open>
  The store hands the graph to \<open>reConstructWorklowToDefinition\<close> and gets it from
  \<open>processWorkflowV2\<close>; both live in utils/reactFlow, which \<open>src/\<close> does not hold. The
  definitions of this section follow sections 3, 4.1 and 4.2 of the specification.
\<close>

text \<open>
  Modelled from the spec: the derived id of the end boundary of a container,
  \<open><type>__end__<parentId>\<close> (section 3, Node).
\<close>

definition boundary_id :: "NodeData \<Rightarrow> string" where
  "boundary_id dat = step_type dat @ ''__end__'' @ step_id dat"

text \<open>
  Modelled from the spec: the node that wraps a step (section 3, Node): the id of the
  step, its data, a position, the nested flag; it is not draggable.
\<close>

definition step_node :: "Position \<Rightarrow> bool \<Rightarrow> NodeData \<Rightarrow> FlowNode" where
  "step_node pos nested dat =
     \<lparr> node_id = step_id dat, node_type = ''custom'', position = pos, data = dat,
       isDraggable = Some False, isNested = nested, prevStepId = None \<rparr>"

text \<open>
  Modelled from the spec: the synthetic end boundary of a container (section 4.1), a
  node named from the id of the container and carrying the container's component type.
\<close>

definition boundary_node :: "Position \<Rightarrow> bool \<Rightarrow> NodeData \<Rightarrow> FlowNode" where
  "boundary_node pos nested dat =
     step_node pos nested
       (dat \<lparr> step_id := boundary_id dat, name := boundary_id dat,
              step_type := step_type dat @ ''__end'', properties := [] \<rparr>)"

text \<open>
  Modelled from the spec: the sentinels \<open>start\<close>, \<open>end\<close>, \<open>trigger_start\<close> and
  \<open>trigger_end\<close> (section 3): nodes with a reserved id. The two ends of the trigger lane
  carry the component type of a trigger.
\<close>

definition sentinel_node :: "Position \<Rightarrow> string \<Rightarrow> string \<Rightarrow> FlowNode" where
  "sentinel_node pos i c =
     step_node pos False
       \<lparr> step_id = i, name = i, step_type = i, componentType = c, properties = [],
         edgeLabel = None, edgeColor = None, edgeNotNeeded = None,
         data_isLayouted = None, islayouted = None \<rparr>"

text \<open>
  Modelled from the spec: the node of a configured trigger kind (section 4.1). Its id is
  the kind and it carries the configuration the properties hold for the kind.
\<close>

definition trigger_node :: "Position \<Rightarrow> props \<Rightarrow> string \<Rightarrow> FlowNode" where
  "trigger_node pos ps kind =
     step_node pos False
       \<lparr> step_id = kind, name = kind, step_type = kind, componentType = ''trigger'',
         properties = (case map_of ps kind of None \<Rightarrow> [] | Some v \<Rightarrow> [(kind, v)]),
         edgeLabel = None, edgeColor = None, edgeNotNeeded = None,
         data_isLayouted = None, islayouted = None \<rparr>"

text \<open>
  Modelled from the spec: an edge of the compiled graph (section 3, Edge): a source, a
  target and, on the two outputs of a switch, a label. The id is made of these three so
  that the two edges of a switch with empty branches differ.
\<close>

definition compile_edge :: "string \<Rightarrow> string \<Rightarrow> string option \<Rightarrow> Edge" where
  "compile_edge s t l =
     \<lparr> edge_id = ''e'' @ s @ ''-'' @ t @ (case l of None \<Rightarrow> [] | Some b \<Rightarrow> ''-'' @ b),
       source = s, target = t, edge_type = Some ''custom-edge'', label = l,
       style_stroke = None, animated = None, edge_isLayouted = None \<rparr>"

text \<open>
  Modelled from the spec: where a sequence is entered: at its first step, or, when it
  is empty, at the node that follows it.
\<close>

fun entry :: "V2Step list \<Rightarrow> string \<Rightarrow> string" where
  "entry [] k = k"
| "entry (s # rest) k = step_id (step_data s)"

text \<open>
  Modelled from the spec: the nodes of a step and of a sequence (section 4.1), in the
  order of the tree: a switch is followed by its false branch and its true branch, a
  container by its body and its end boundary. Nodes inside a branch or a container are
  nested.
\<close>

fun step_nodes :: "Position \<Rightarrow> bool \<Rightarrow> V2Step \<Rightarrow> FlowNode list"
  and steps_nodes :: "Position \<Rightarrow> bool \<Rightarrow> V2Step list \<Rightarrow> FlowNode list" where
  "step_nodes pos nested (V2Step d bt bf sq) =
     (if componentType d = ''switch''
      then step_node pos nested d # steps_nodes pos True bf @ steps_nodes pos True bt
      else if componentType d = ''container''
      then step_node pos nested d # steps_nodes pos True sq @ [boundary_node pos nested d]
      else [step_node pos nested d])"
| "steps_nodes pos nested [] = []"
| "steps_nodes pos nested (s # rest) = step_nodes pos nested s @ steps_nodes pos nested rest"

text \<open>
  Modelled from the spec: the edges of a step and of a sequence that is followed by
  the node \<open>k\<close> (section 4.1). A switch has two labelled edges, false then true, into
  its branches, and both branches reconverge at \<open>k\<close>; the body of a container runs
  into the end boundary, which leads to \<open>k\<close>; any other step has one edge to \<open>k\<close>.
\<close>

fun step_edges :: "V2Step \<Rightarrow> string \<Rightarrow> Edge list"
  and steps_edges :: "V2Step list \<Rightarrow> string \<Rightarrow> Edge list" where
  "step_edges (V2Step d bt bf sq) k =
     (if componentType d = ''switch''
      then compile_edge (step_id d) (entry bf k) (Some ''false'')
           # compile_edge (step_id d) (entry bt k) (Some ''true'')
           # steps_edges bf k @ steps_edges bt k
      else if componentType d = ''container''
      then compile_edge (step_id d) (entry sq (boundary_id d)) None
           # steps_edges sq (boundary_id d) @ [compile_edge (boundary_id d) k None]
      else [compile_edge (step_id d) k None])"
| "steps_edges [] k = []"
| "steps_edges (s # rest) k = step_edges s (entry rest k) @ steps_edges rest k"

text \<open>
  Modelled from the spec: \<open>compile(sequence, properties, originPosition)\<close> of section
  4.1: \<open>start\<close> first and \<open>end\<close> last, every configured trigger kind wired between
  \<open>trigger_start\<close> and \<open>trigger_end\<close> (the two are joined directly when no kind is
  configured), and the main lane from \<open>trigger_end\<close> through the sequence to \<open>end\<close>.
  Every node is placed at the origin; positions are the layout's business.
\<close>

definition compile :: "V2Step list \<Rightarrow> props \<Rightarrow> Position \<Rightarrow> FlowNode list \<times> Edge list" where
  "compile sq ps origin =
     (let kinds = filter (\<lambda>kind. map_of ps kind \<noteq> None) trigger_kinds
      in (sentinel_node origin ''start'' ''start''
            # sentinel_node origin ''trigger_start'' ''trigger''
            # map (trigger_node origin ps) kinds
            @ sentinel_node origin ''trigger_end'' ''trigger''
            # steps_nodes origin False sq
            @ [sentinel_node origin ''end'' ''end''],
          compile_edge ''start'' ''trigger_start'' None
            # (if kinds = [] then [compile_edge ''trigger_start'' ''trigger_end'' None]
               else concat (map (\<lambda>kind. [compile_edge ''trigger_start'' kind None,
                                          compile_edge kind ''trigger_end'' None]) kinds))
            @ compile_edge ''trigger_end'' (entry sq ''end'') None
            # steps_edges sq ''end''))"

text \<open>
  Modelled from the spec: the explicit "empty" placeholder step that the decompiler
  puts where the graph cannot be followed (section 4.2).
\<close>

definition empty_step :: V2Step where
  "empty_step =
     V2Step \<lparr> step_id = ''empty'', name = ''empty'', step_type = ''empty'',
              componentType = ''task'', properties = [],
              edgeLabel = None, edgeColor = None, edgeNotNeeded = None,
              data_isLayouted = None, islayouted = None \<rparr> [] [] []"

text \<open>
  Modelled from the spec: the point where the two branches of a switch reconverge is
  where the two paths become the same; what the two paths share at their end is the
  rest of the sequence, what is before is the branch.
\<close>

definition common_suffix :: "'a list \<Rightarrow> 'a list \<Rightarrow> 'a list" where
  "common_suffix as bs = rev (longest_common_prefix (rev as) (rev bs))"

definition drop_suffix :: "'a list \<Rightarrow> 'a list \<Rightarrow> 'a list" where
  "drop_suffix c as = take (length as - length c) as"

text \<open>
  Modelled from the spec: the inverse traversal of section 4.2, from the node \<open>cur\<close>
  to the node \<open>stop\<close>. \<open>start\<close> and the nodes of the trigger lane are passed; a switch
  collects its two labelled branches and goes on where they reconverge; a container
  collects the steps up to its end boundary and goes on behind it; any other step is
  collected as it is. A node or an edge that is missing, and a path longer than the
  bound \<open>n\<close>, give the placeholder instead of a failure.
\<close>

fun walk :: "nat \<Rightarrow> FlowNode list \<Rightarrow> Edge list \<Rightarrow> string \<Rightarrow> string \<Rightarrow> V2Step list" where
  "walk 0 N E cur stop = [empty_step]"
| "walk (Suc n) N E cur stop =
     (if cur = stop then []
      else
        case find (\<lambda>nd. node_id nd = cur) N of
          None \<Rightarrow> [empty_step]
        | Some nd \<Rightarrow>
            let d = data nd in
            if componentType d = ''start'' \<or> componentType d = ''trigger''
            then (case find (\<lambda>e. source e = cur) E of
                    None \<Rightarrow> [empty_step]
                  | Some e \<Rightarrow> walk n N E (target e) stop)
            else if componentType d = ''switch''
            then (case (find (\<lambda>e. source e = cur \<and> label e = Some ''false'') E,
                        find (\<lambda>e. source e = cur \<and> label e = Some ''true'') E) of
                    (Some f, Some t) \<Rightarrow>
                      let pf = walk n N E (target f) stop;
                          pt = walk n N E (target t) stop;
                          rest = common_suffix pf pt
                      in V2Step d (drop_suffix rest pt) (drop_suffix rest pf) [] # rest
                  | _ \<Rightarrow> [empty_step])
            else if componentType d = ''container''
            then (case (find (\<lambda>e. source e = cur) E,
                        find (\<lambda>e. source e = boundary_id d) E) of
                    (Some e, Some e') \<Rightarrow>
                      V2Step d [] [] (walk n N E (target e) (boundary_id d))
                        # walk n N E (target e') stop
                  | _ \<Rightarrow> [empty_step])
            else (case find (\<lambda>e. source e = cur) E of
                    None \<Rightarrow> [V2Step d [] [] [], empty_step]
                  | Some e \<Rightarrow> V2Step d [] [] [] # walk n N E (target e) stop))"

text \<open>
  Modelled from the spec: \<open>decompile(nodes, edges, currentProperties)\<close> of section 4.2:
  the traversal from \<open>start\<close> to \<open>end\<close>, no path being longer than the number of nodes,
  and the current properties.
\<close>

definition decompile :: "FlowNode list \<Rightarrow> Edge list \<Rightarrow> props \<Rightarrow> V2Step list \<times> props" where
  "decompile N E currentProperties =
     (walk (Suc (length N)) N E ''start'' ''end'', currentProperties)"

text \<open>
  Modelled from the spec: the ids a definition takes in the graph: those of its steps
  and the derived ids of the end boundaries of its containers.
\<close>

fun step_ids :: "V2Step \<Rightarrow> string list"
  and steps_ids :: "V2Step list \<Rightarrow> string list" where
  "step_ids (V2Step d bt bf sq) =
     (if componentType d = ''switch''
      then step_id d # steps_ids bf @ steps_ids bt
      else if componentType d = ''container''
      then step_id d # steps_ids sq @ [boundary_id d]
      else [step_id d])"
| "steps_ids [] = []"
| "steps_ids (s # rest) = step_ids s @ steps_ids rest"

text \<open>
  Modelled from the spec: the variants of a step (section 3). A step of the sequence is
  no sentinel and no trigger; only a switch has branches and only a container has a
  body.
\<close>

fun well_shaped :: "V2Step \<Rightarrow> bool"
  and all_well_shaped :: "V2Step list \<Rightarrow> bool" where
  "well_shaped (V2Step d bt bf sq) =
     (componentType d \<noteq> ''start'' \<and> componentType d \<noteq> ''end''
      \<and> componentType d \<noteq> ''trigger''
      \<and> (if componentType d = ''switch''
           then sq = [] \<and> all_well_shaped bt \<and> all_well_shaped bf
           else if componentType d = ''container''
           then bt = [] \<and> bf = [] \<and> all_well_shaped sq
           else bt = [] \<and> bf = [] \<and> sq = []))"
| "all_well_shaped [] = True"
| "all_well_shaped (s # rest) = (well_shaped s \<and> all_well_shaped rest)"

text \<open>
  Modelled from the spec: a legally constructed definition (sections 3 and 9): every
  step is of one of the variants, and the ids of the steps and of the end boundaries
  are unique and none of them is a reserved id or a trigger kind.
\<close>

definition legal :: "Definition \<Rightarrow> bool" where
  "legal D =
     (all_well_shaped (def_sequence D)
      \<and> distinct (PROTECTED_NODE_IDS @ trigger_kinds @ steps_ids (def_sequence D)))"

text \<open>
  What the traversal looks up in a graph, and what it means that a graph holds a
  sequence that is followed by the node \<open>k\<close>: every step has its node, and its edges
  lead where the compiler points them. Both are devices of the proof.
\<close>

definition node_data :: "FlowNode list \<Rightarrow> string \<Rightarrow> NodeData option" where
  "node_data N i = map_option data (find (\<lambda>nd. node_id nd = i) N)"

definition next_of :: "Edge list \<Rightarrow> string \<Rightarrow> string option" where
  "next_of E i = map_option target (find (\<lambda>e. source e = i) E)"

definition branch_of :: "Edge list \<Rightarrow> string \<Rightarrow> string \<Rightarrow> string option" where
  "branch_of E i l = map_option target (find (\<lambda>e. source e = i \<and> label e = Some l) E)"

fun embeds_step :: "FlowNode list \<Rightarrow> Edge list \<Rightarrow> V2Step \<Rightarrow> string \<Rightarrow> bool"
  and embeds :: "FlowNode list \<Rightarrow> Edge list \<Rightarrow> V2Step list \<Rightarrow> string \<Rightarrow> bool" where
  "embeds_step N E (V2Step d bt bf sq) k =
     (node_data N (step_id d) = Some d
      \<and> (if componentType d = ''switch''
           then branch_of E (step_id d) ''false'' = Some (entry bf k)
                \<and> branch_of E (step_id d) ''true'' = Some (entry bt k)
                \<and> embeds N E bf k \<and> embeds N E bt k
           else if componentType d = ''container''
           then next_of E (step_id d) = Some (entry sq (boundary_id d))
                \<and> next_of E (boundary_id d) = Some k
                \<and> embeds N E sq (boundary_id d)
           else next_of E (step_id d) = Some k))"
| "embeds N E [] k = True"
| "embeds N E (s # rest) k = (embeds_step N E s (entry rest k) \<and> embeds N E rest k)"

section \<open>A concrete instance\<close>

text \<open>
  One choice of the parameters and one small document, on which the commands can be
  evaluated. The theorems below hold for every choice of the parameters; the instance
  only shows that their hypotheses can be met.
\<close>

definition sample_data :: "string \<Rightarrow> string \<Rightarrow> string \<Rightarrow> NodeData" where
  "sample_data i t c =
     \<lparr> step_id = i, name = i, step_type = t, componentType = c, properties = [],
       edgeLabel = None, edgeColor = None, edgeNotNeeded = None,
       data_isLayouted = None, islayouted = None \<rparr>"

definition sample_parse :: "RawStep \<Rightarrow> string + V2Step" where
  "sample_parse r =
     (case raw_payload r of
        JObj kv \<Rightarrow>
          (case (map_of kv ''id'', map_of kv ''type'') of
             (Some (JStr i), Some (JStr t)) \<Rightarrow>
               Inr (V2Step (sample_data i t (raw_componentType r)) [] [] [])
           | _ \<Rightarrow> Inl ''Required'')
      | _ \<Rightarrow> Inl ''Expected object'')"

definition sample_node :: "NodeData \<Rightarrow> string \<Rightarrow> FlowNode" where
  "sample_node dat i =
     \<lparr> node_id = i, node_type = ''custom'', position = \<lparr> x = 0, y = 0 \<rparr>, data = dat,
       isDraggable = Some False, isNested = False, prevStepId = None \<rparr>"

definition sample_edge :: "string \<Rightarrow> string \<Rightarrow> string option \<Rightarrow> Edge" where
  "sample_edge s t l =
     \<lparr> edge_id = ''e'' @ s @ ''-'' @ t, source = s, target = t,
       edge_type = Some ''custom-edge'', label = l, style_stroke = None,
       animated = None, edge_isLayouted = None \<rparr>"

definition sample_process :: "V2Step list \<Rightarrow> Position \<Rightarrow> bool \<Rightarrow> FlowNode list \<times> Edge list" where
  "sample_process steps pos useLayout =
     (map (\<lambda>s. sample_node (step_data s) (step_id (step_data s)))
        (filter (\<lambda>s. componentType (step_data s) \<noteq> ''temp_node'') steps),
      map (\<lambda>(a, b). sample_edge (step_id (step_data a)) (step_id (step_data b))
                       (edgeLabel (step_data a)))
        (zip steps (tl steps)))"

definition sample_deps :: deps where
  "sample_deps =
     \<lparr> V2StepTriggerSchema_parse = sample_parse,
       V2StepTemplateSchema_parse = sample_parse,
       canAddTriggerBeforeEdge = (\<lambda>s t. s = ''trigger_start'' \<and> t = ''trigger_end''),
       canAddConditionBeforeEdge = (\<lambda>s t. s \<noteq> ''trigger_start''),
       canAddForeachBeforeEdge = (\<lambda>s t. s \<noteq> ''trigger_start''),
       canAddStepBeforeEdge = (\<lambda>s t. s \<noteq> ''trigger_start''),
       processWorkflowV2 = sample_process,
       createCustomEdgeMeta = (\<lambda>s t l. [sample_edge s t l]),
       createDefaultNodeV2 = sample_node,
       reConstructWorklowToDefinition =
         (\<lambda>ns es ps. (map (\<lambda>n. V2Step (data n) [] [] [])
                          (filter (\<lambda>n. componentType (data n) = ''task'') ns), ps)),
       validateGlobalPure =
         (\<lambda>def. if map_of (def_properties def) ''manual'' = None
                then [(''trigger_start'', ''Workflow should include at least one trigger.'')]
                else []),
       validateStepPure =
         (\<lambda>s ps ips secs def.
            if name (step_data s) = [] then [(''Step name cannot be empty.'', ''error'')]
            else if properties (step_data s) = [] then [(''No provider selected'', ''warning'')]
            else []),
       wrapDefinitionV2 = (\<lambda>def v. \<lparr> wrapped_value = def, wrapped_isValid = v \<rparr>),
       addEdge = (\<lambda>e es. if list_ex (\<lambda>e'. source e' = source e \<and> target e' = target e) es
                          then es
                          else es @ [e \<lparr> edge_id := ''xy-edge__'' @ source e @ ''-'' @ target e \<rparr>]),
       layoutPosition = (\<lambda>ns es dir n. \<lparr> x = 0, y = 100 \<rparr>),
       uuidv4 = ''uuid-1'',
       Date_now = 1000 \<rparr>"

text \<open>
  The document start, trigger_start, manual, trigger_end, send-slack, end with its five
  edges, and nothing selected.
\<close>

definition sample_state :: WorkflowState where
  "sample_state =
     \<lparr> nodes = [sample_node (sample_data ''start'' ''start'' ''start'') ''start'',
                sample_node (sample_data ''trigger_start'' ''trigger_start'' ''trigger'') ''trigger_start'',
                sample_node (sample_data ''manual'' ''manual'' ''trigger'') ''manual'',
                sample_node (sample_data ''trigger_end'' ''trigger_end'' ''trigger'') ''trigger_end'',
                sample_node (sample_data ''send-slack'' ''action-slack'' ''task'') ''send-slack'',
                sample_node (sample_data ''end'' ''end'' ''end'') ''end''],
       edges = [sample_edge ''start'' ''trigger_start'' None,
                sample_edge ''trigger_start'' ''manual'' None,
                sample_edge ''manual'' ''trigger_end'' None,
                sample_edge ''trigger_end'' ''send-slack'' None,
                sample_edge ''send-slack'' ''end'' None],
       selectedNode = None, selectedEdge = None,
       v2Properties = [(''manual'', JStr ''true'')],
       editorOpen = False, providers = None, installedProviders = None, secrets = [],
       isLayouted = True, changes = 0, isEditorSyncedWithNodes = True,
       lastChangedAt = None, canDeploy = False, wf_definition = None,
       validationErrors = [] \<rparr>"

definition sample_trigger :: "string \<Rightarrow> RawStep" where
  "sample_trigger kind =
     \<lparr> raw_componentType = ''trigger'',
       raw_payload = JObj [(''id'', JStr kind), (''type'', JStr kind)] \<rparr>"

definition sample_task :: RawStep where
  "sample_task =
     \<lparr> raw_componentType = ''task'',
       raw_payload = JObj [(''id'', JStr ''tmpl''), (''type'', JStr ''action-slack'')] \<rparr>"

text \<open>
  A document for the connect command: a switch with one outgoing edge, a foreach
  container with two, a task with one, and the end node; every node still draggable.
\<close>

definition sample_connect_state :: WorkflowState where
  "sample_connect_state =
     sample_state
       \<lparr> nodes := map (\<lambda>n. n \<lparr> isDraggable := Some True \<rparr>)
                   [sample_node (sample_data ''sw'' ''condition-assert'' ''switch'') ''sw'',
                    sample_node (sample_data ''fe'' ''foreach'' ''container'') ''fe'',
                    sample_node (sample_data ''t'' ''action-slack'' ''task'') ''t'',
                    sample_node (sample_data ''end'' ''end'' ''end'') ''end''],
         edges := [sample_edge ''sw'' ''t'' (Some ''true''),
                   sample_edge ''fe'' ''t'' None,
                   sample_edge ''fe'' ''end'' None,
                   sample_edge ''t'' ''end'' None] \<rparr>"

definition sample_connection :: "string \<Rightarrow> string \<Rightarrow> Connection" where
  "sample_connection s t = \<lparr> conn_source = s, conn_target = t \<rparr>"

text \<open>
  Two definitions for the validators: one whose only step has a name and no provider
  (a warning of the sample validator), one whose step has no name (an error).
\<close>

definition sample_definition :: "string \<Rightarrow> Definition" where
  "sample_definition nm =
     \<lparr> def_sequence = [V2Step ((sample_data ''s1'' ''action-slack'' ''task'') \<lparr> name := nm \<rparr>) [] [] []],
       def_properties = [(''manual'', JStr ''true'')] \<rparr>"



text \<open>A layout call on a graph of its own, one of whose edges ends in a placeholder.\<close>

definition sample_layout_params :: LayoutParams where
  "sample_layout_params =
     \<lparr> direction = ''DOWN'', useInitialNodes = True,
       initialNodes = [sample_node (sample_data ''sw'' ''condition-assert'' ''switch'') ''sw'',
                       sample_node (sample_data ''sw__empty_true'' ''empty'' ''task'') ''sw__empty_true''],
       initialEdges = [sample_edge ''sw'' ''sw__empty_true'' (Some ''true''),
                       sample_edge ''sw__empty_true'' ''end'' None] \<rparr>"

text \<open>
  Documents for the delete command: one with a foreach container, its body and its end
  boundary; the sample document after the edge from send-slack to end was removed; one
  with two triggers; and one whose only step has an edge to itself.
\<close>

definition sample_foreach_state :: WorkflowState where
  "sample_foreach_state =
     sample_state
       \<lparr> nodes := [sample_node (sample_data ''start'' ''start'' ''start'') ''start'',
                   sample_node (sample_data ''trigger_start'' ''trigger_start'' ''trigger'') ''trigger_start'',
                   sample_node (sample_data ''trigger_end'' ''trigger_end'' ''trigger'') ''trigger_end'',
                   sample_node (sample_data ''fe'' ''foreach'' ''container'') ''fe'',
                   sample_node (sample_data ''inner'' ''action-slack'' ''task'') ''inner'',
                   sample_node (sample_data ''foreach__end__fe'' ''foreach__end'' ''container'')
                     ''foreach__end__fe'',
                   sample_node (sample_data ''end'' ''end'' ''end'') ''end''],
         edges := [sample_edge ''start'' ''trigger_start'' None,
                   sample_edge ''trigger_start'' ''trigger_end'' None,
                   sample_edge ''trigger_end'' ''fe'' None,
                   sample_edge ''fe'' ''inner'' None,
                   sample_edge ''inner'' ''foreach__end__fe'' None,
                   sample_edge ''foreach__end__fe'' ''end'' None],
         v2Properties := [] \<rparr>"

text \<open>A list of nodes in which the end boundary of the container fe stands before it.\<close>

definition sample_inverted_state :: WorkflowState where
  "sample_inverted_state =
     sample_state
       \<lparr> nodes := [sample_node (sample_data ''start'' ''start'' ''start'') ''start'',
                   sample_node (sample_data ''foreach__end__fe'' ''foreach__end'' ''container'')
                     ''foreach__end__fe'',
                   sample_node (sample_data ''inner'' ''action-slack'' ''task'') ''inner'',
                   sample_node (sample_data ''fe'' ''foreach'' ''container'') ''fe'',
                   sample_node (sample_data ''end'' ''end'' ''end'') ''end''],
         edges := [sample_edge ''start'' ''fe'' None,
                   sample_edge ''fe'' ''inner'' None,
                   sample_edge ''inner'' ''foreach__end__fe'' None,
                   sample_edge ''foreach__end__fe'' ''end'' None] \<rparr>"

definition sample_open_state :: WorkflowState where
  "sample_open_state =
     sample_state
       \<lparr> edges := [sample_edge ''start'' ''trigger_start'' None,
                   sample_edge ''trigger_start'' ''manual'' None,
                   sample_edge ''manual'' ''trigger_end'' None,
                   sample_edge ''trigger_end'' ''send-slack'' None] \<rparr>"

definition sample_two_triggers_state :: WorkflowState where
  "sample_two_triggers_state =
     sample_state
       \<lparr> nodes := [sample_node (sample_data ''start'' ''start'' ''start'') ''start'',
                   sample_node (sample_data ''trigger_start'' ''trigger_start'' ''trigger'') ''trigger_start'',
                   sample_node (sample_data ''manual'' ''manual'' ''trigger'') ''manual'',
                   sample_node (sample_data ''alert'' ''alert'' ''trigger'') ''alert'',
                   sample_node (sample_data ''trigger_end'' ''trigger_end'' ''trigger'') ''trigger_end'',
                   sample_node (sample_data ''send-slack'' ''action-slack'' ''task'') ''send-slack'',
                   sample_node (sample_data ''end'' ''end'' ''end'') ''end''],
         edges := [sample_edge ''start'' ''trigger_start'' None,
                   sample_edge ''trigger_start'' ''manual'' None,
                   sample_edge ''manual'' ''trigger_end'' None,
                   sample_edge ''trigger_start'' ''alert'' None,
                   sample_edge ''alert'' ''trigger_end'' None,
                   sample_edge ''trigger_end'' ''send-slack'' None,
                   sample_edge ''send-slack'' ''end'' None],
         v2Properties := [(''manual'', JStr ''true''), (''alert'', JObj [])] \<rparr>"

definition sample_loop_state :: WorkflowState where
  "sample_loop_state =
     sample_state
       \<lparr> nodes := [sample_node (sample_data ''start'' ''start'' ''start'') ''start'',
                   sample_node (sample_data ''b'' ''action-slack'' ''task'') ''b'',
                   sample_node (sample_data ''end'' ''end'' ''end'') ''end''],
         edges := [sample_edge ''start'' ''b'' None,
                   sample_edge ''b'' ''b'' None,
                   sample_edge ''b'' ''end'' None],
         v2Properties := [] \<rparr>"

text \<open>The two ends of every edge of a state, for reading a result.\<close>

definition edge_ends :: "WorkflowState \<Rightarrow> (string \<times> string) list" where
  "edge_ends st = map (\<lambda>edge. (source edge, target edge)) (edges st)"

text \<open>
  A definition with a task, a switch with a task on its true branch, a foreach
  container whose body holds a task and a switch with both branches taken, and a switch
  with no branch.
\<close>

definition sample_tree :: "V2Step list" where
  "sample_tree = [V2Step (sample_data ''a'' ''step-x'' ''task'') [] [] [],
         V2Step (sample_data ''sw'' ''condition-assert'' ''switch'')
            [V2Step (sample_data ''t1'' ''action-slack'' ''task'') [] [] []]
            [] [],
         V2Step (sample_data ''fe'' ''foreach'' ''container'') [] []
            [V2Step (sample_data ''b1'' ''action-slack'' ''task'') [] [] [],
             V2Step (sample_data ''sw2'' ''condition-assert'' ''switch'')
               [V2Step (sample_data ''t2'' ''action-slack'' ''task'') [] [] []]
               [V2Step (sample_data ''f2'' ''action-slack'' ''task'') [] [] []] []],
         V2Step (sample_data ''sw3'' ''condition-assert'' ''switch'') [] [] []]"

definition sample_tree_definition :: Definition where
  "sample_tree_definition =
     \<lparr> def_sequence = sample_tree, def_properties = [(''manual'', JStr ''true'')] \<rparr>"

section \<open>Properties\<close>

lemmas sample_defs =
  sample_deps_def sample_state_def sample_trigger_def sample_task_def
  sample_parse_def sample_node_def sample_edge_def sample_data_def sample_process_def
  sample_connect_state_def sample_connection_def sample_definition_def
  sample_layout_params_def sample_foreach_state_def sample_open_state_def
  sample_two_triggers_state_def sample_loop_state_def

subsection \<open>Array primitives\<close>

lemma findIndex_None: "findIndex P as = None \<longleftrightarrow> (\<forall>a \<in> set as. \<not> P a)"
  by (induction as) auto

lemma findIndex_Some:
  "findIndex P as = Some i \<Longrightarrow> i < length as \<and> P (as ! i) \<and> (\<forall>j < i. \<not> P (as ! j))"
proof (induction as arbitrary: i)
  case Nil
  then show ?case by simp
next
  case (Cons a as)
  show ?case
  proof (cases "P a")
    case True
    with Cons.prems show ?thesis by simp
  next
    case False
    with Cons.prems obtain k where k: "findIndex P as = Some k" "i = Suc k" by auto
    from Cons.IH [OF k(1)] False k(2) show ?thesis
      by (auto simp: less_Suc_eq_0_disj)
  qed
qed

subsection \<open>A failed insertion leaves the store as it was\<close>

lemma insert_on_edge_Inl:
  "insert_on_edge d b step edge st = (Inl e, st') \<Longrightarrow> st' = st"
  by (auto simp: insert_on_edge_def splice_def Let_def
           split: if_splits option.splits prod.splits)

lemma addNodeBetween_Inl: "addNodeBetween d a r t st = (Inl e, st') \<Longrightarrow> st' = st"
  by (auto simp: addNodeBetween_def Let_def dest: insert_on_edge_Inl
           split: if_splits option.splits sum.splits)

text \<open>
  Claim C1. Whenever the insertion \<open>addNodeBetween\<close> throws, be it the \<open>ZodError\<close> of the
  schema or a \<open>KeepWorkflowStoreError\<close> of the anchor resolution, of the checks on the
  kind of edge or of the duplicate-trigger check, the store after the call is the store
  before it: nodes, edges, properties and every other value. The same holds of the
  store's command around it, which sets the selection only after a successful insertion.
\<close>

theorem addNodeBetween_throws_before_mutation:
  "(fst (addNodeBetween d a r t st) = Inl e \<longrightarrow> snd (addNodeBetween d a r t st) = st)
   \<and> (fst (store_addNodeBetween d a r t st) = Inl e
        \<longrightarrow> snd (store_addNodeBetween d a r t st) = st)"
proof -
  obtain res st' where r: "addNodeBetween d a r t st = (res, st')"
    by (cases "addNodeBetween d a r t st")
  have inner: "res = Inl e \<Longrightarrow> st' = st"
    using r addNodeBetween_Inl by blast
  show ?thesis
    using r inner by (cases res) (auto simp: store_addNodeBetween_def)
qed

theorem addNodeBetween_throws_before_mutation_witness:
  "fst (addNodeBetween sample_deps ''no-such-edge'' (Some sample_task) AnchorEdge sample_state)
     = Inl (KeepWorkflowStoreError ''Edge with id no-such-edge not found'')
   \<and> snd (addNodeBetween sample_deps ''no-such-edge'' (Some sample_task) AnchorEdge sample_state)
       = sample_state
   \<and> fst (store_addNodeBetween sample_deps ''no-such-edge'' (Some sample_task) AnchorEdge
            sample_state)
       = Inl (KeepWorkflowStoreError ''Edge with id no-such-edge not found'')
   \<and> snd (store_addNodeBetween sample_deps ''no-such-edge'' (Some sample_task) AnchorEdge
            sample_state)
       = sample_state"
proof -
  let ?e = "KeepWorkflowStoreError ''Edge with id no-such-edge not found''"
  have h: "fst (addNodeBetween sample_deps ''no-such-edge'' (Some sample_task) AnchorEdge
                  sample_state) = Inl ?e"
    by (simp add: addNodeBetween_def find_anchor_def anchor_not_found_def sample_defs)
  then have h': "fst (store_addNodeBetween sample_deps ''no-such-edge'' (Some sample_task)
                        AnchorEdge sample_state) = Inl ?e"
    by (cases "addNodeBetween sample_deps ''no-such-edge'' (Some sample_task) AnchorEdge
                 sample_state") (simp add: store_addNodeBetween_def)
  from addNodeBetween_throws_before_mutation
         [of sample_deps "''no-such-edge''" "Some sample_task" AnchorEdge sample_state ?e]
       h h'
  show ?thesis by blast
qed

subsection \<open>Deleting a protected or a missing node\<close>

text \<open>
  Claim C2. For each of the protected ids start, end, trigger_start and trigger_end,
  \<open>deleteNodes\<close> throws the store's error "Cannot delete protected node" and the store
  is left exactly as it was.
\<close>

theorem deleteNodes_protected:
  "ids \<in> set PROTECTED_NODE_IDS \<Longrightarrow>
   deleteNodes d (StringId ids) st
     = (Inl (KeepWorkflowStoreError ''Cannot delete protected node''), st)"
  by (simp add: deleteNodes_def)

theorem deleteNodes_protected_witness:
  "''start'' \<in> set PROTECTED_NODE_IDS
   \<and> deleteNodes sample_deps (StringId ''start'') sample_state
       = (Inl (KeepWorkflowStoreError ''Cannot delete protected node''), sample_state)
   \<and> deleteNodes sample_deps (StringId ''end'') sample_state
       = (Inl (KeepWorkflowStoreError ''Cannot delete protected node''), sample_state)
   \<and> deleteNodes sample_deps (StringId ''trigger_start'') sample_state
       = (Inl (KeepWorkflowStoreError ''Cannot delete protected node''), sample_state)
   \<and> deleteNodes sample_deps (StringId ''trigger_end'') sample_state
       = (Inl (KeepWorkflowStoreError ''Cannot delete protected node''), sample_state)"
proof -
  have p: "''start'' \<in> set PROTECTED_NODE_IDS" "''end'' \<in> set PROTECTED_NODE_IDS"
    "''trigger_start'' \<in> set PROTECTED_NODE_IDS" "''trigger_end'' \<in> set PROTECTED_NODE_IDS"
    by (simp_all add: PROTECTED_NODE_IDS_def)
  show ?thesis
    using p p [THEN deleteNodes_protected [of _ sample_deps sample_state]] by blast
qed

text \<open>
  Claim C10. When the argument of \<open>deleteNodes\<close> is not a string, or is a string that is
  no protected id and the id of no node of the graph, the command returns the empty
  list, throws nothing and leaves the store as it was.
\<close>

theorem deleteNodes_missing_target:
  assumes "ids0 = NotAString
           \<or> (\<exists>i. ids0 = StringId i \<and> i \<notin> set PROTECTED_NODE_IDS
                    \<and> i \<notin> node_id ` set (nodes st))"
  shows "deleteNodes d ids0 st = (Inr [], st)"
proof (cases ids0)
  case NotAString
  then show ?thesis by (simp add: deleteNodes_def)
next
  case (StringId i)
  with assms have np: "i \<notin> set PROTECTED_NODE_IDS" and nn: "i \<notin> node_id ` set (nodes st)"
    by auto
  from nn have "findIndex (\<lambda>node. i = node_id node) (nodes st) = None"
    by (auto simp: findIndex_None)
  with np StringId show ?thesis by (simp add: deleteNodes_def)
qed

theorem deleteNodes_missing_target_witness:
  "''end2'' \<notin> set PROTECTED_NODE_IDS \<and> ''end2'' \<notin> node_id ` set (nodes sample_state)
   \<and> deleteNodes sample_deps (StringId ''end2'') sample_state = (Inr [], sample_state)
   \<and> deleteNodes sample_deps NotAString sample_state = (Inr [], sample_state)"
proof -
  have a: "''end2'' \<notin> set PROTECTED_NODE_IDS"
    by (simp add: PROTECTED_NODE_IDS_def)
  have b: "''end2'' \<notin> node_id ` set (nodes sample_state)"
    by (simp add: sample_defs)
  from a b deleteNodes_missing_target [of "StringId ''end2''" sample_state sample_deps]
       deleteNodes_missing_target [of NotAString sample_state sample_deps]
  show ?thesis by blast
qed

subsection \<open>What may be inserted where\<close>

lemma insert_on_edge_dup:
  assumes "step_id (step_data step) \<in> node_id ` set (nodes st)"
  shows "\<exists>msg. insert_on_edge d True step edge st = (Inl (KeepWorkflowStoreError msg), st)"
proof -
  from assms have "find (\<lambda>node. step_id (step_data step) = node_id node) (nodes st) \<noteq> None"
    by (auto simp: find_None_iff)
  then show ?thesis
    by (simp add: insert_on_edge_def Let_def)
qed

text \<open>
  Claim C4. The store identifies the kind of a trigger with its id: line 174 looks for a
  node whose id is the id of the parsed trigger step, and line 189 gives the new node
  that id. When the graph already holds a node with the id of the trigger step that is
  inserted (a second manual trigger, say), the insertion throws a
  \<open>KeepWorkflowStoreError\<close>, whatever the anchor, and the store is left as it was.
  The payload is one that passes the trigger schema; a payload that does not is refused
  before, with the schema's error.
\<close>

theorem duplicate_trigger_rejected:
  assumes "raw_componentType r = ''trigger''"
    and "V2StepTriggerSchema_parse d r = Inr step"
    and "step_id (step_data step) \<in> node_id ` set (nodes st)"
  shows "\<exists>msg. addNodeBetween d a (Some r) t st = (Inl (KeepWorkflowStoreError msg), st)"
proof (cases "a = []")
  case True
  then show ?thesis by (simp add: addNodeBetween_def)
next
  case False
  show ?thesis
  proof (cases "find_anchor t a (edges st)")
    case None
    with False assms(1,2) show ?thesis
      by (cases t) (simp_all add: addNodeBetween_def anchor_not_found_def)
  next
    case (Some edge)
    with False assms(1,2) have "addNodeBetween d a (Some r) t st = insert_on_edge d True step edge st"
      by (simp add: addNodeBetween_def)
    with insert_on_edge_dup [OF assms(3)] show ?thesis by simp
  qed
qed

theorem duplicate_trigger_rejected_witness:
  "raw_componentType (sample_trigger ''manual'') = ''trigger''
   \<and> V2StepTriggerSchema_parse sample_deps (sample_trigger ''manual'')
       = Inr (V2Step (sample_data ''manual'' ''manual'' ''trigger'') [] [] [])
   \<and> ''manual'' \<in> node_id ` set (nodes sample_state)
   \<and> addNodeBetween sample_deps ''etrigger_start-manual'' (Some (sample_trigger ''manual''))
         AnchorEdge sample_state
       = (Inl (KeepWorkflowStoreError ''Trigger of type manual is already in the workflow''),
          sample_state)"
proof -
  let ?step = "V2Step (sample_data ''manual'' ''manual'' ''trigger'') [] [] []"
  have h1: "raw_componentType (sample_trigger ''manual'') = ''trigger''"
    by (simp add: sample_defs)
  have h2: "V2StepTriggerSchema_parse sample_deps (sample_trigger ''manual'') = Inr ?step"
    by (simp add: sample_defs)
  have h3: "step_id (step_data ?step) \<in> node_id ` set (nodes sample_state)"
    by (simp add: sample_defs)
  have ev: "fst (addNodeBetween sample_deps ''etrigger_start-manual''
                   (Some (sample_trigger ''manual'')) AnchorEdge sample_state)
              = Inl (KeepWorkflowStoreError ''Trigger of type manual is already in the workflow'')"
    by code_simp
  from duplicate_trigger_rejected [OF h1 h2 h3, of "''etrigger_start-manual''" AnchorEdge]
  obtain msg where
    m: "addNodeBetween sample_deps ''etrigger_start-manual'' (Some (sample_trigger ''manual''))
          AnchorEdge sample_state = (Inl (KeepWorkflowStoreError msg), sample_state)"
    by blast
  with ev have "msg = ''Trigger of type manual is already in the workflow''" by simp
  with m h1 h2 h3 show ?thesis by (simp add: sample_data_def)
qed


lemma insert_on_edge_trigger_off_lane:
  assumes "source edge \<noteq> ''trigger_start''"
  shows "\<exists>msg. insert_on_edge d True step edge st = (Inl (KeepWorkflowStoreError msg), st)"
  using assms by (simp add: insert_on_edge_def Let_def)

lemma insert_on_edge_step_on_lane:
  assumes "source edge = ''trigger_start''"
  shows "\<exists>msg. insert_on_edge d False step edge st = (Inl (KeepWorkflowStoreError msg), st)"
  using assms by (simp add: insert_on_edge_def Let_def)

lemma splice_retarget:
  "splice d b step (edge \<lparr> target := tg \<rparr>) sourceId targetId st
     = splice d b step edge sourceId targetId st"
  by (simp add: splice_def Let_def cong: option.case_cong)

lemma splice_missing_target:
  assumes "findIndex (\<lambda>node. node_id node = targetId) (nodes st) = None"
  shows "splice d b step edge sourceId targetId st
           = (Inl (KeepWorkflowStoreError (''Target node with id '' @ targetId @ '' not found'')), st)"
  using assms by (simp add: splice_def Let_def)

lemma splice_result:
  assumes "findIndex (\<lambda>node. node_id node = targetId) (nodes st) = Some ti"
  shows "fst (splice d b step edge sourceId targetId st)
           = Inr (if b then step_id (step_data step) else uuidv4 d)"
    and "map node_id (nodes (snd (splice d b step edge sourceId targetId st)))
           = map node_id (take ti (nodes st))
             @ map node_id
                 (fst (processWorkflowV2 d
                         [temp_node sourceId (label edge) (style_stroke edge) None,
                          with_id step (if b then step_id (step_data step) else uuidv4 d),
                          temp_node targetId None None (Some True)]
                         \<lparr> x = 0, y = 0 \<rparr> True))
             @ map node_id (drop ti (nodes st))"
    and "edge_ends (snd (splice d b step edge sourceId targetId st))
           = map (\<lambda>e. (source e, target e))
                 (snd (processWorkflowV2 d
                         [temp_node sourceId (label edge) (style_stroke edge) None,
                          with_id step (if b then step_id (step_data step) else uuidv4 d),
                          temp_node targetId None None (Some True)]
                         \<lparr> x = 0, y = 0 \<rparr> True))
             @ filter (\<lambda>(s, t). \<not> (s = sourceId \<and> t = targetId)) (edge_ends st)"
  using assms
  by (simp_all add: splice_def Let_def split_def updateDefinition_def onLayout_def
        layout_down_def getLayoutedWorkflowElements_def seed_properties_def comp_def
        edge_ends_def filter_map)

lemma insert_on_lane:
  assumes "source edge = ''trigger_start''"
  shows "insert_on_edge d True step edge st =
      (if \<not> canAddTriggerBeforeEdge d ''trigger_start'' ''trigger_end''
       then (Inl (KeepWorkflowStoreError (''Edge '' @ edge_id edge @ '' cannot add trigger'')), st)
       else if componentType (step_data step) = ''switch''
               \<and> \<not> canAddConditionBeforeEdge d ''trigger_start'' ''trigger_end''
       then (Inl (KeepWorkflowStoreError (''Edge '' @ edge_id edge @ '' cannot add condition'')), st)
       else if componentType (step_data step) = ''container''
               \<and> step_type (step_data step) = ''foreach''
               \<and> \<not> canAddForeachBeforeEdge d ''trigger_start'' ''trigger_end''
       then (Inl (KeepWorkflowStoreError (''Edge '' @ edge_id edge @ '' cannot add foreach'')), st)
       else if find (\<lambda>node. step_id (step_data step) = node_id node) (nodes st) \<noteq> None
       then (Inl (KeepWorkflowStoreError
                (''Trigger of type '' @ step_type (step_data step)
                   @ '' is already in the workflow'')), st)
       else splice d True step edge ''trigger_start'' ''trigger_end'' st)"
  using assms by (simp add: insert_on_edge_def Let_def)


lemma insert_on_edge_retarget:
  assumes "source edge = ''trigger_start''"
  shows "insert_on_edge d b step (edge \<lparr> target := tg \<rparr>) st = insert_on_edge d b step edge st"
  using assms by (simp add: insert_on_edge_def Let_def splice_retarget)

text \<open>
  Claim C5. For an insertion whose payload passes its schema and whose anchor resolves
  to an edge: a trigger on an edge that does not leave \<open>trigger_start\<close> throws a
  \<open>KeepWorkflowStoreError\<close>; a step that is no trigger on an edge that leaves
  \<open>trigger_start\<close> throws a \<open>KeepWorkflowStoreError\<close>; both leave the store as it was.
  A trigger on an edge that leaves \<open>trigger_start\<close> is inserted with \<open>trigger_end\<close> as
  its target: the checks on the kind of edge are asked about the pair
  \<open>trigger_start\<close>, \<open>trigger_end\<close>; the insertion is the one of lines 180-275 between
  \<open>trigger_start\<close> and \<open>trigger_end\<close>; whatever the target of the edge is, the outcome is
  the same; without a node \<open>trigger_end\<close> the insertion throws; and when it succeeds the
  new node has the id of the trigger, the nodes the compiler makes of the scaffold
  \<open>trigger_start\<close>, trigger, \<open>trigger_end\<close> stand right before the node \<open>trigger_end\<close>,
  and the edges are the compiler's followed by the old ones that do not lead from
  \<open>trigger_start\<close> to \<open>trigger_end\<close>.
\<close>

theorem insert_edge_kind_rules:
  assumes "a \<noteq> []"
    and "(if raw_componentType r = ''trigger'' then V2StepTriggerSchema_parse d r
          else V2StepTemplateSchema_parse d r) = Inr step"
    and "find_anchor t a (edges st) = Some edge"
  shows "(raw_componentType r = ''trigger'' \<and> source edge \<noteq> ''trigger_start''
            \<longrightarrow> (\<exists>msg. addNodeBetween d a (Some r) t st = (Inl (KeepWorkflowStoreError msg), st)))
       \<and> (raw_componentType r \<noteq> ''trigger'' \<and> source edge = ''trigger_start''
            \<longrightarrow> (\<exists>msg. addNodeBetween d a (Some r) t st = (Inl (KeepWorkflowStoreError msg), st)))
       \<and> (raw_componentType r = ''trigger'' \<and> source edge = ''trigger_start''
            \<longrightarrow> addNodeBetween d a (Some r) t st =
                 (if \<not> canAddTriggerBeforeEdge d ''trigger_start'' ''trigger_end''
                  then (Inl (KeepWorkflowStoreError
                          (''Edge '' @ edge_id edge @ '' cannot add trigger'')), st)
                  else if componentType (step_data step) = ''switch''
                          \<and> \<not> canAddConditionBeforeEdge d ''trigger_start'' ''trigger_end''
                  then (Inl (KeepWorkflowStoreError
                          (''Edge '' @ edge_id edge @ '' cannot add condition'')), st)
                  else if componentType (step_data step) = ''container''
                          \<and> step_type (step_data step) = ''foreach''
                          \<and> \<not> canAddForeachBeforeEdge d ''trigger_start'' ''trigger_end''
                  then (Inl (KeepWorkflowStoreError
                          (''Edge '' @ edge_id edge @ '' cannot add foreach'')), st)
                  else if find (\<lambda>node. step_id (step_data step) = node_id node) (nodes st) \<noteq> None
                  then (Inl (KeepWorkflowStoreError
                          (''Trigger of type '' @ step_type (step_data step)
                             @ '' is already in the workflow'')), st)
                  else splice d True step edge ''trigger_start'' ''trigger_end'' st)
               \<and> (\<forall>tg. insert_on_edge d True step (edge \<lparr> target := tg \<rparr>) st
                          = addNodeBetween d a (Some r) t st)
               \<and> (findIndex (\<lambda>node. node_id node = ''trigger_end'') (nodes st) = None
                    \<longrightarrow> (\<exists>msg. addNodeBetween d a (Some r) t st
                                  = (Inl (KeepWorkflowStoreError msg), st)))
               \<and> (\<forall>newNodeId. fst (addNodeBetween d a (Some r) t st) = Inr newNodeId
                    \<longrightarrow> newNodeId = step_id (step_data step)
                        \<and> (\<exists>ti. findIndex (\<lambda>node. node_id node = ''trigger_end'') (nodes st)
                                   = Some ti
                             \<and> map node_id (nodes (snd (addNodeBetween d a (Some r) t st)))
                                 = map node_id (take ti (nodes st))
                                   @ map node_id
                                       (fst (processWorkflowV2 d
                                          [temp_node ''trigger_start'' (label edge)
                                             (style_stroke edge) None,
                                           with_id step (step_id (step_data step)),
                                           temp_node ''trigger_end'' None None (Some True)]
                                          \<lparr> x = 0, y = 0 \<rparr> True))
                                   @ map node_id (drop ti (nodes st))
                             \<and> edge_ends (snd (addNodeBetween d a (Some r) t st))
                                 = map (\<lambda>e. (source e, target e))
                                       (snd (processWorkflowV2 d
                                          [temp_node ''trigger_start'' (label edge)
                                             (style_stroke edge) None,
                                           with_id step (step_id (step_data step)),
                                           temp_node ''trigger_end'' None None (Some True)]
                                          \<lparr> x = 0, y = 0 \<rparr> True))
                                   @ filter (\<lambda>(s, t). \<not> (s = ''trigger_start''
                                                          \<and> t = ''trigger_end''))
                                       (edge_ends st))))"
proof -
  have eq: "addNodeBetween d a (Some r) t st
              = insert_on_edge d (raw_componentType r = ''trigger'') step edge st"
    using assms by (simp add: addNodeBetween_def Let_def)
  have c1: "raw_componentType r = ''trigger'' \<and> source edge \<noteq> ''trigger_start''
            \<longrightarrow> (\<exists>msg. addNodeBetween d a (Some r) t st = (Inl (KeepWorkflowStoreError msg), st))"
    using eq insert_on_edge_trigger_off_lane [of edge d step st] by auto
  have c2: "raw_componentType r \<noteq> ''trigger'' \<and> source edge = ''trigger_start''
            \<longrightarrow> (\<exists>msg. addNodeBetween d a (Some r) t st = (Inl (KeepWorkflowStoreError msg), st))"
    using eq insert_on_edge_step_on_lane [of edge d step st] by auto
  let ?R = "addNodeBetween d a (Some r) t st"
  let ?scaffold = "[temp_node ''trigger_start'' (label edge) (style_stroke edge) None,
                    with_id step (step_id (step_data step)),
                    temp_node ''trigger_end'' None None (Some True)]"
  let ?lane = "(if \<not> canAddTriggerBeforeEdge d ''trigger_start'' ''trigger_end''
                  then (Inl (KeepWorkflowStoreError
                          (''Edge '' @ edge_id edge @ '' cannot add trigger'')), st)
                  else if componentType (step_data step) = ''switch''
                          \<and> \<not> canAddConditionBeforeEdge d ''trigger_start'' ''trigger_end''
                  then (Inl (KeepWorkflowStoreError
                          (''Edge '' @ edge_id edge @ '' cannot add condition'')), st)
                  else if componentType (step_data step) = ''container''
                          \<and> step_type (step_data step) = ''foreach''
                          \<and> \<not> canAddForeachBeforeEdge d ''trigger_start'' ''trigger_end''
                  then (Inl (KeepWorkflowStoreError
                          (''Edge '' @ edge_id edge @ '' cannot add foreach'')), st)
                  else if find (\<lambda>node. step_id (step_data step) = node_id node) (nodes st) \<noteq> None
                  then (Inl (KeepWorkflowStoreError
                          (''Trigger of type '' @ step_type (step_data step)
                             @ '' is already in the workflow'')), st)
                  else splice d True step edge ''trigger_start'' ''trigger_end'' st)"
  have c3: "raw_componentType r = ''trigger'' \<and> source edge = ''trigger_start''
      \<longrightarrow> ?R = ?lane
         \<and> (\<forall>tg. insert_on_edge d True step (edge \<lparr> target := tg \<rparr>) st = ?R)
         \<and> (findIndex (\<lambda>node. node_id node = ''trigger_end'') (nodes st) = None
              \<longrightarrow> (\<exists>msg. ?R = (Inl (KeepWorkflowStoreError msg), st)))
         \<and> (\<forall>newNodeId. fst ?R = Inr newNodeId
              \<longrightarrow> newNodeId = step_id (step_data step)
                  \<and> (\<exists>ti. findIndex (\<lambda>node. node_id node = ''trigger_end'') (nodes st) = Some ti
                       \<and> map node_id (nodes (snd ?R))
                           = map node_id (take ti (nodes st))
                             @ map node_id (fst (processWorkflowV2 d ?scaffold \<lparr> x = 0, y = 0 \<rparr> True))
                             @ map node_id (drop ti (nodes st))
                       \<and> edge_ends (snd ?R)
                           = map (\<lambda>e. (source e, target e))
                                 (snd (processWorkflowV2 d ?scaffold \<lparr> x = 0, y = 0 \<rparr> True))
                             @ filter (\<lambda>(s, t). \<not> (s = ''trigger_start'' \<and> t = ''trigger_end''))
                                 (edge_ends st)))"
  proof (intro impI, elim conjE)
    assume tr: "raw_componentType r = ''trigger''" and so: "source edge = ''trigger_start''"
    have R: "?R = insert_on_edge d True step edge st"
      using eq tr by simp
    have lane: "?R = ?lane"
      unfolding R by (rule insert_on_lane [OF so])
    have indep: "\<forall>tg. insert_on_edge d True step (edge \<lparr> target := tg \<rparr>) st = ?R"
      unfolding R using insert_on_edge_retarget [OF so] by simp
    have missing: "\<exists>msg. ?R = (Inl (KeepWorkflowStoreError msg), st)"
      if "findIndex (\<lambda>node. node_id node = ''trigger_end'') (nodes st) = None"
      unfolding lane using splice_missing_target [OF that] by simp
    have success: "newNodeId = step_id (step_data step)
          \<and> (\<exists>ti. findIndex (\<lambda>node. node_id node = ''trigger_end'') (nodes st) = Some ti
               \<and> map node_id (nodes (snd ?R))
                   = map node_id (take ti (nodes st))
                     @ map node_id (fst (processWorkflowV2 d ?scaffold \<lparr> x = 0, y = 0 \<rparr> True))
                     @ map node_id (drop ti (nodes st))
               \<and> edge_ends (snd ?R)
                   = map (\<lambda>e. (source e, target e))
                         (snd (processWorkflowV2 d ?scaffold \<lparr> x = 0, y = 0 \<rparr> True))
                     @ filter (\<lambda>(s, t). \<not> (s = ''trigger_start'' \<and> t = ''trigger_end''))
                         (edge_ends st))"
      if ok: "fst ?R = Inr newNodeId" for newNodeId
    proof -
      from ok missing obtain ti
        where ti: "findIndex (\<lambda>node. node_id node = ''trigger_end'') (nodes st) = Some ti"
        by (cases "findIndex (\<lambda>node. node_id node = ''trigger_end'') (nodes st)") auto
      have sp: "?R = splice d True step edge ''trigger_start'' ''trigger_end'' st"
        using ok unfolding lane by (auto split: if_splits)
      from splice_result [OF ti, of d True step edge "''trigger_start''"] ok
      show ?thesis
        unfolding sp using ti by simp
    qed
    from lane indep missing success
    show "?R = ?lane
         \<and> (\<forall>tg. insert_on_edge d True step (edge \<lparr> target := tg \<rparr>) st = ?R)
         \<and> (findIndex (\<lambda>node. node_id node = ''trigger_end'') (nodes st) = None
              \<longrightarrow> (\<exists>msg. ?R = (Inl (KeepWorkflowStoreError msg), st)))
         \<and> (\<forall>newNodeId. fst ?R = Inr newNodeId
              \<longrightarrow> newNodeId = step_id (step_data step)
                  \<and> (\<exists>ti. findIndex (\<lambda>node. node_id node = ''trigger_end'') (nodes st) = Some ti
                       \<and> map node_id (nodes (snd ?R))
                           = map node_id (take ti (nodes st))
                             @ map node_id (fst (processWorkflowV2 d ?scaffold \<lparr> x = 0, y = 0 \<rparr> True))
                             @ map node_id (drop ti (nodes st))
                       \<and> edge_ends (snd ?R)
                           = map (\<lambda>e. (source e, target e))
                                 (snd (processWorkflowV2 d ?scaffold \<lparr> x = 0, y = 0 \<rparr> True))
                             @ filter (\<lambda>(s, t). \<not> (s = ''trigger_start'' \<and> t = ''trigger_end''))
                                 (edge_ends st)))"
      by blast
  qed
  from c1 c2 c3 show ?thesis by (intro conjI)
qed

theorem insert_edge_kind_rules_witness:
  "addNodeBetween sample_deps ''esend-slack-end'' (Some (sample_trigger ''alert'')) AnchorEdge
       sample_state
     = (Inl (KeepWorkflowStoreError ''Edge esend-slack-end cannot add trigger''), sample_state)
   \<and> addNodeBetween sample_deps ''etrigger_start-manual'' (Some sample_task) AnchorEdge
       sample_state
     = (Inl (KeepWorkflowStoreError
          ''Only trigger can be added at the start of the workflow. Attempted to add step at edge etrigger_start-manual''),
        sample_state)
   \<and> addNodeBetween sample_deps ''etrigger_start-manual'' (Some (sample_trigger ''alert''))
       AnchorEdge sample_state
     = insert_on_edge sample_deps True (V2Step (sample_data ''alert'' ''alert'' ''trigger'') [] [] [])
         ((sample_edge ''trigger_start'' ''manual'' None) \<lparr> target := ''trigger_end'' \<rparr>)
         sample_state
   \<and> fst (addNodeBetween sample_deps ''etrigger_start-manual'' (Some (sample_trigger ''alert''))
           AnchorEdge sample_state) = Inr ''alert''
   \<and> map node_id (nodes (snd (addNodeBetween sample_deps ''etrigger_start-manual''
                                 (Some (sample_trigger ''alert'')) AnchorEdge sample_state)))
     = [''start'', ''trigger_start'', ''manual'', ''alert'', ''trigger_end'', ''send-slack'', ''end'']
   \<and> edge_ends (snd (addNodeBetween sample_deps ''etrigger_start-manual''
                       (Some (sample_trigger ''alert'')) AnchorEdge sample_state))
     = [(''trigger_start'', ''alert''), (''alert'', ''trigger_end''),
        (''start'', ''trigger_start''), (''trigger_start'', ''manual''),
        (''manual'', ''trigger_end''), (''trigger_end'', ''send-slack''),
        (''send-slack'', ''end'')]"
proof -
  let ?alert = "V2Step (sample_data ''alert'' ''alert'' ''trigger'') [] [] []"
  let ?task = "V2Step (sample_data ''tmpl'' ''action-slack'' ''task'') [] [] []"
  let ?lane = "sample_edge ''trigger_start'' ''manual'' None"
  let ?main = "sample_edge ''send-slack'' ''end'' None"
  have pa: "(if raw_componentType (sample_trigger ''alert'') = ''trigger''
             then V2StepTriggerSchema_parse sample_deps (sample_trigger ''alert'')
             else V2StepTemplateSchema_parse sample_deps (sample_trigger ''alert'')) = Inr ?alert"
    by (simp add: sample_defs)
  have pt: "(if raw_componentType sample_task = ''trigger''
             then V2StepTriggerSchema_parse sample_deps sample_task
             else V2StepTemplateSchema_parse sample_deps sample_task) = Inr ?task"
    by (simp add: sample_defs)
  have fl: "find_anchor AnchorEdge ''etrigger_start-manual'' (edges sample_state) = Some ?lane"
    by (simp add: find_anchor_def sample_defs)
  have fm: "find_anchor AnchorEdge ''esend-slack-end'' (edges sample_state) = Some ?main"
    by (simp add: find_anchor_def sample_defs)
  have ka: "raw_componentType (sample_trigger ''alert'') = ''trigger''"
    and kt: "raw_componentType sample_task \<noteq> ''trigger''"
    and sl: "source ?lane = ''trigger_start''" and sm: "source ?main \<noteq> ''trigger_start''"
    by (simp_all add: sample_defs)
  have A: "\<exists>msg. addNodeBetween sample_deps ''esend-slack-end'' (Some (sample_trigger ''alert''))
                   AnchorEdge sample_state = (Inl (KeepWorkflowStoreError msg), sample_state)"
    using insert_edge_kind_rules [OF _ pa fm] ka sm by simp
  have B: "\<exists>msg. addNodeBetween sample_deps ''etrigger_start-manual'' (Some sample_task)
                   AnchorEdge sample_state = (Inl (KeepWorkflowStoreError msg), sample_state)"
    using insert_edge_kind_rules [OF _ pt fl] kt sl by simp
  have C: "addNodeBetween sample_deps ''etrigger_start-manual'' (Some (sample_trigger ''alert''))
             AnchorEdge sample_state
           = insert_on_edge sample_deps True ?alert (?lane \<lparr> target := ''trigger_end'' \<rparr>)
               sample_state"
    using insert_edge_kind_rules [OF _ pa fl] ka sl by simp
  have eA: "fst (addNodeBetween sample_deps ''esend-slack-end'' (Some (sample_trigger ''alert''))
                   AnchorEdge sample_state)
              = Inl (KeepWorkflowStoreError ''Edge esend-slack-end cannot add trigger'')"
    by code_simp
  have eB: "fst (addNodeBetween sample_deps ''etrigger_start-manual'' (Some sample_task)
                   AnchorEdge sample_state)
              = Inl (KeepWorkflowStoreError
                  ''Only trigger can be added at the start of the workflow. Attempted to add step at edge etrigger_start-manual'')"
    by code_simp
  have eC: "fst (addNodeBetween sample_deps ''etrigger_start-manual''
                   (Some (sample_trigger ''alert'')) AnchorEdge sample_state) = Inr ''alert''"
    by code_simp
  have eD: "map node_id (nodes (snd (addNodeBetween sample_deps ''etrigger_start-manual''
                                       (Some (sample_trigger ''alert'')) AnchorEdge sample_state)))
     = [''start'', ''trigger_start'', ''manual'', ''alert'', ''trigger_end'', ''send-slack'', ''end'']"
    by code_simp
  from A eA have A': "addNodeBetween sample_deps ''esend-slack-end''
       (Some (sample_trigger ''alert'')) AnchorEdge sample_state
     = (Inl (KeepWorkflowStoreError ''Edge esend-slack-end cannot add trigger''), sample_state)"
    by auto
  from B eB have B': "addNodeBetween sample_deps ''etrigger_start-manual'' (Some sample_task)
       AnchorEdge sample_state
     = (Inl (KeepWorkflowStoreError
          ''Only trigger can be added at the start of the workflow. Attempted to add step at edge etrigger_start-manual''),
        sample_state)"
    by auto
  have eE: "edge_ends (snd (addNodeBetween sample_deps ''etrigger_start-manual''
                              (Some (sample_trigger ''alert'')) AnchorEdge sample_state))
     = [(''trigger_start'', ''alert''), (''alert'', ''trigger_end''),
        (''start'', ''trigger_start''), (''trigger_start'', ''manual''),
        (''manual'', ''trigger_end''), (''trigger_end'', ''send-slack''),
        (''send-slack'', ''end'')]"
    by code_simp
  from A' B' C eC eD eE show ?thesis by (intro conjI)
qed


subsection \<open>Connecting two nodes\<close>

lemma onConnect_refused:
  "\<not> canConnect st (conn_source c) (getNodeById st (conn_source c))
         (getNodeById st (conn_target c))
   \<Longrightarrow> onConnect d c st = st"
  by (simp add: onConnect_def Let_def)

text \<open>
  Claim C6, as the code has it. A connect call one of whose ends is not the id of a
  node of the graph changes nothing (line 564). For a call whose two ends are nodes:
  a source whose componentType is "switch" passes exactly when it has fewer than two
  outgoing edges, a foreach container always passes, any other source passes exactly
  when it has no outgoing edge. When the call passes, the edges of the store become
  what \<open>addEdge\<close> of the graph library returns for the edge
  \<open>{source, target, type: "custom-edge"}\<close> and the old edges; every node with the id of
  the target gets the source as \<open>prevStepId\<close> and its draggable flag false, every other
  node with the id of the source gets its draggable flag false, and nothing else in the
  store changes. When it does not pass, the store is left as it was. \<open>onConnect\<close> has no
  throw.
\<close>

theorem onConnect_caps:
  "(getNodeById st (conn_source c) = None \<or> getNodeById st (conn_target c) = None
      \<longrightarrow> onConnect d c st = st)
   \<and> (\<forall>sn tn. getNodeById st (conn_source c) = Some sn
               \<and> getNodeById st (conn_target c) = Some tn
        \<longrightarrow> (if (if componentType (data sn) = ''switch''
                  then length (filter (\<lambda>edge. source edge = conn_source c) (edges st)) < 2
                  else if componentType (data sn) = ''container''
                          \<and> step_type (data sn) = ''foreach''
                  then True
                  else length (filter (\<lambda>edge. source edge = conn_source c) (edges st)) = 0)
             then onConnect d c st
                    = st \<lparr> edges := addEdge d (connection_edge c) (edges st),
                           nodes := map (\<lambda>node.
                                      if node_id node = conn_target c
                                      then node \<lparr> prevStepId := Some (conn_source c),
                                                  isDraggable := Some False \<rparr>
                                      else if node_id node = conn_source c
                                      then node \<lparr> isDraggable := Some False \<rparr>
                                      else node) (nodes st) \<rparr>
                  \<and> map node_id (nodes (onConnect d c st)) = map node_id (nodes st)
                  \<and> (\<forall>n \<in> set (nodes (onConnect d c st)).
                        node_id n = conn_source c \<or> node_id n = conn_target c
                          \<longrightarrow> isDraggable n = Some False)
             else onConnect d c st = st))"
proof (intro conjI allI impI)
  assume "getNodeById st (conn_source c) = None \<or> getNodeById st (conn_target c) = None"
  then have "\<not> canConnect st (conn_source c) (getNodeById st (conn_source c))
                 (getNodeById st (conn_target c))"
    by (auto simp: canConnect_def split: option.splits)
  then show "onConnect d c st = st"
    by (rule onConnect_refused)
next
  fix sn tn
  assume "getNodeById st (conn_source c) = Some sn \<and> getNodeById st (conn_target c) = Some tn"
  then show "if (if componentType (data sn) = ''switch''
                  then length (filter (\<lambda>edge. source edge = conn_source c) (edges st)) < 2
                  else if componentType (data sn) = ''container''
                          \<and> step_type (data sn) = ''foreach''
                  then True
                  else length (filter (\<lambda>edge. source edge = conn_source c) (edges st)) = 0)
             then onConnect d c st
                    = st \<lparr> edges := addEdge d (connection_edge c) (edges st),
                           nodes := map (\<lambda>node.
                                      if node_id node = conn_target c
                                      then node \<lparr> prevStepId := Some (conn_source c),
                                                  isDraggable := Some False \<rparr>
                                      else if node_id node = conn_source c
                                      then node \<lparr> isDraggable := Some False \<rparr>
                                      else node) (nodes st) \<rparr>
                  \<and> map node_id (nodes (onConnect d c st)) = map node_id (nodes st)
                  \<and> (\<forall>n \<in> set (nodes (onConnect d c st)).
                        node_id n = conn_source c \<or> node_id n = conn_target c
                          \<longrightarrow> isDraggable n = Some False)
             else onConnect d c st = st"
    by (auto simp: onConnect_def canConnect_def Let_def comp_def)
qed

theorem onConnect_caps_witness:
  "edges (onConnect sample_deps (sample_connection ''sw'' ''end'') sample_connect_state)
     = edges sample_connect_state
       @ [(connection_edge (sample_connection ''sw'' ''end'')) \<lparr> edge_id := ''xy-edge__sw-end'' \<rparr>]
   \<and> map isDraggable (nodes (onConnect sample_deps (sample_connection ''sw'' ''end'')
                                 sample_connect_state))
     = [Some False, Some True, Some True, Some False]
   \<and> length (edges (onConnect sample_deps (sample_connection ''fe'' ''sw'') sample_connect_state))
     = 5
   \<and> onConnect sample_deps (sample_connection ''t'' ''sw'') sample_connect_state
     = sample_connect_state
   \<and> onConnect sample_deps (sample_connection ''sw'' ''fe'')
         (onConnect sample_deps (sample_connection ''sw'' ''end'') sample_connect_state)
     = onConnect sample_deps (sample_connection ''sw'' ''end'') sample_connect_state
   \<and> onConnect sample_deps (sample_connection ''fe'' ''ghost'') sample_connect_state
     = sample_connect_state"
proof -
  let ?st = sample_connect_state
  let ?st1 = "onConnect sample_deps (sample_connection ''sw'' ''end'') sample_connect_state"
  let ?sw = "(sample_node (sample_data ''sw'' ''condition-assert'' ''switch'') ''sw'')
               \<lparr> isDraggable := Some True \<rparr>"
  let ?fe = "(sample_node (sample_data ''fe'' ''foreach'' ''container'') ''fe'')
               \<lparr> isDraggable := Some True \<rparr>"
  let ?t = "(sample_node (sample_data ''t'' ''action-slack'' ''task'') ''t'')
               \<lparr> isDraggable := Some True \<rparr>"
  let ?en = "(sample_node (sample_data ''end'' ''end'' ''end'') ''end'')
               \<lparr> isDraggable := Some True \<rparr>"
  note caps = onConnect_caps [THEN conjunct2, THEN spec, THEN spec, THEN mp, OF conjI]
  note gone = onConnect_caps [THEN conjunct1, THEN mp]
  have g: "getNodeById ?st (conn_source (sample_connection ''sw'' ''end'')) = Some ?sw"
      "getNodeById ?st (conn_target (sample_connection ''sw'' ''end'')) = Some ?en"
      "getNodeById ?st (conn_source (sample_connection ''fe'' ''sw'')) = Some ?fe"
      "getNodeById ?st (conn_target (sample_connection ''fe'' ''sw'')) = Some ?sw"
      "getNodeById ?st (conn_source (sample_connection ''t'' ''sw'')) = Some ?t"
      "getNodeById ?st (conn_target (sample_connection ''t'' ''sw'')) = Some ?sw"
    by (simp_all add: getNodeById_def sample_defs)
  have a: "edges ?st1 = addEdge sample_deps (connection_edge (sample_connection ''sw'' ''end''))
                          (edges ?st)"
    using caps [OF g(1) g(2), of sample_deps] by (simp add: sample_defs)
  have a': "addEdge sample_deps (connection_edge (sample_connection ''sw'' ''end'')) (edges ?st)
              = edges ?st @ [(connection_edge (sample_connection ''sw'' ''end''))
                               \<lparr> edge_id := ''xy-edge__sw-end'' \<rparr>]"
    by (simp add: sample_defs connection_edge_def)
  have b: "map isDraggable (nodes ?st1) = [Some False, Some True, Some True, Some False]"
    by code_simp
  have c: "edges (onConnect sample_deps (sample_connection ''fe'' ''sw'') ?st)
             = addEdge sample_deps (connection_edge (sample_connection ''fe'' ''sw'')) (edges ?st)"
    using caps [OF g(3) g(4), of sample_deps] by (simp add: sample_defs)
  have c': "length (addEdge sample_deps (connection_edge (sample_connection ''fe'' ''sw''))
                      (edges ?st)) = 5"
    by (simp add: sample_defs connection_edge_def)
  have e: "onConnect sample_deps (sample_connection ''t'' ''sw'') ?st = ?st"
    using caps [OF g(5) g(6), of sample_deps] by (simp add: sample_defs)
  have g1: "getNodeById ?st1 (conn_source (sample_connection ''sw'' ''fe''))
              = Some (?sw \<lparr> isDraggable := Some False \<rparr>)"
      "getNodeById ?st1 (conn_target (sample_connection ''sw'' ''fe'')) = Some ?fe"
    by (simp_all add: getNodeById_def onConnect_def canConnect_def Let_def sample_defs)
  have n1: "length (filter (\<lambda>edge. source edge = conn_source (sample_connection ''sw'' ''fe''))
                      (edges ?st1)) = 2"
    by code_simp
  have f: "onConnect sample_deps (sample_connection ''sw'' ''fe'') ?st1 = ?st1"
    using caps [OF g1(1) g1(2), of sample_deps] n1 by (simp add: sample_defs)
  have gh: "getNodeById ?st (conn_target (sample_connection ''fe'' ''ghost'')) = None"
    by (simp add: getNodeById_def sample_defs)
  have h: "onConnect sample_deps (sample_connection ''fe'' ''ghost'') ?st = ?st"
    by (rule gone) (simp add: gh)
  from a a' b c c' e f h show ?thesis by simp
qed

text \<open>
  The claim as the specification words it, "a foreach container always gains the edge",
  fails: the node fe is a foreach container, and the call that connects it to an id
  that is no node leaves the store as it was, with the edges it had.
\<close>

theorem onConnect_counterexample:
  "getNodeById sample_connect_state ''fe''
     = Some ((sample_node (sample_data ''fe'' ''foreach'' ''container'') ''fe'')
               \<lparr> isDraggable := Some True \<rparr>)
   \<and> componentType (sample_data ''fe'' ''foreach'' ''container'') = ''container''
   \<and> step_type (sample_data ''fe'' ''foreach'' ''container'') = ''foreach''
   \<and> getNodeById sample_connect_state ''ghost'' = None
   \<and> onConnect sample_deps (sample_connection ''fe'' ''ghost'') sample_connect_state
     = sample_connect_state
   \<and> edge_ends (onConnect sample_deps (sample_connection ''fe'' ''ghost'') sample_connect_state)
     = [(''sw'', ''t''), (''fe'', ''t''), (''fe'', ''end''), (''t'', ''end'')]"
proof -
  have fe: "getNodeById sample_connect_state ''fe''
     = Some ((sample_node (sample_data ''fe'' ''foreach'' ''container'') ''fe'')
               \<lparr> isDraggable := Some True \<rparr>)"
    by (simp add: getNodeById_def sample_defs)
  have ty: "componentType (sample_data ''fe'' ''foreach'' ''container'') = ''container''"
      "step_type (sample_data ''fe'' ''foreach'' ''container'') = ''foreach''"
    by (simp_all add: sample_data_def)
  have gh: "getNodeById sample_connect_state ''ghost'' = None"
    by (simp add: getNodeById_def sample_defs)
  have "\<not> canConnect sample_connect_state
            (conn_source (sample_connection ''fe'' ''ghost''))
            (getNodeById sample_connect_state (conn_source (sample_connection ''fe'' ''ghost'')))
            (getNodeById sample_connect_state (conn_target (sample_connection ''fe'' ''ghost'')))"
    using gh by (simp add: canConnect_def sample_connection_def split: option.splits)
  then have no: "onConnect sample_deps (sample_connection ''fe'' ''ghost'') sample_connect_state
                   = sample_connect_state"
    by (rule onConnect_refused)
  have ed: "edge_ends sample_connect_state
              = [(''sw'', ''t''), (''fe'', ''t''), (''fe'', ''end''), (''t'', ''end'')]"
    by code_simp
  from fe ty gh no ed show ?thesis by simp
qed

subsection \<open>Validation and deployability\<close>





















text \<open>
  A finding stored under the key "__proto__" leaves no entry in the record: with a step
  of that id, without a name, and no other finding, the record is empty and \<open>canDeploy\<close>
  is true.
\<close>

lemma validateDefinition_proto_key:
  "findings sample_deps sample_state
       \<lparr> def_sequence = [V2Step ((sample_data ''__proto__'' ''action-slack'' ''task'')
                                   \<lparr> name := [] \<rparr>) [] [] []],
         def_properties = [(''manual'', JStr ''true'')] \<rparr>
     = [(''__proto__'', ''Step name cannot be empty.'', ''error'')]
   \<and> res_validationErrors (validateDefinition sample_deps sample_state
       \<lparr> def_sequence = [V2Step ((sample_data ''__proto__'' ''action-slack'' ''task'')
                                   \<lparr> name := [] \<rparr>) [] [] []],
         def_properties = [(''manual'', JStr ''true'')] \<rparr>)
     = []
   \<and> res_canDeploy (validateDefinition sample_deps sample_state
       \<lparr> def_sequence = [V2Step ((sample_data ''__proto__'' ''action-slack'' ''task'')
                                   \<lparr> name := [] \<rparr>) [] [] []],
         def_properties = [(''manual'', JStr ''true'')] \<rparr>)
   \<and> \<not> res_isValid (validateDefinition sample_deps sample_state
       \<lparr> def_sequence = [V2Step ((sample_data ''__proto__'' ''action-slack'' ''task'')
                                   \<lparr> name := [] \<rparr>) [] [] []],
         def_properties = [(''manual'', JStr ''true'')] \<rparr>)"
  by code_simp

subsection \<open>The layout pass\<close>

lemma str_includes_iff: "str_includes s sub \<longleftrightarrow> (\<exists>p q. s = p @ sub @ q)"
proof (induction s)
  case Nil
  then show ?case by auto
next
  case (Cons c cs)
  show ?case
  proof
    assume "str_includes (c # cs) sub"
    then consider "prefix sub (c # cs)" | "str_includes cs sub" by auto
    then show "\<exists>p q. c # cs = p @ sub @ q"
    proof cases
      case 1
      then obtain q where "c # cs = sub @ q" by (auto simp: prefix_def)
      then have "c # cs = [] @ sub @ q" by simp
      then show ?thesis by blast
    next
      case 2
      with Cons.IH obtain p q where "cs = p @ sub @ q" by blast
      then have "c # cs = (c # p) @ sub @ q" by simp
      then show ?thesis by blast
    qed
  next
    assume "\<exists>p q. c # cs = p @ sub @ q"
    then obtain p q where pq: "c # cs = p @ sub @ q" by blast
    show "str_includes (c # cs) sub"
    proof (cases p)
      case Nil
      with pq have "prefix sub (c # cs)" by (simp add: prefix_def)
      then show ?thesis by simp
    next
      case (Cons a p')
      with pq have "cs = p' @ sub @ q" by simp
      with Cons.IH show ?thesis by auto
    qed
  qed
qed

text \<open>
  Claim C9. The layout pass, on the graph it is given (the store's, or the initial nodes
  and edges of the call), keeps the number, the order and the ids of the nodes and of
  the edges. Every node comes back with its layouted flag true and is otherwise the
  node it was, its position apart; every edge comes back with its layouted flag true
  and \<open>animated\<close> true exactly when its target id includes "empty", and is otherwise the
  edge it was. Of the rest of the store only \<open>isLayouted\<close> changes.
\<close>

theorem onLayout_frame:
  assumes ns: "ns = (if useInitialNodes params then initialNodes params else nodes st)"
    and es: "es = (if useInitialNodes params then initialEdges params else edges st)"
  shows "length (nodes (onLayout d params st)) = length ns
       \<and> length (edges (onLayout d params st)) = length es
       \<and> map node_id (nodes (onLayout d params st)) = map node_id ns
       \<and> map edge_id (edges (onLayout d params st)) = map edge_id es
       \<and> (\<forall>i < length ns.
            data_isLayouted (data (nodes (onLayout d params st) ! i)) = Some True
            \<and> (nodes (onLayout d params st) ! i)
                  \<lparr> position := position (ns ! i),
                    data := (data (nodes (onLayout d params st) ! i))
                              \<lparr> data_isLayouted := data_isLayouted (data (ns ! i)) \<rparr> \<rparr>
                = ns ! i)
       \<and> (\<forall>i < length es.
            edge_isLayouted (edges (onLayout d params st) ! i) = Some True
            \<and> animated (edges (onLayout d params st) ! i)
                = Some (str_includes (target (es ! i)) ''empty'')
            \<and> (edges (onLayout d params st) ! i)
                  \<lparr> animated := animated (es ! i), edge_isLayouted := edge_isLayouted (es ! i) \<rparr>
                = es ! i)
       \<and> (onLayout d params st) \<lparr> nodes := nodes st, edges := edges st, isLayouted := isLayouted st \<rparr>
           = st"
  unfolding ns es
  by (simp add: onLayout_def getLayoutedWorkflowElements_def Let_def comp_def)


theorem onLayout_frame_witness:
  "map node_id (nodes (onLayout sample_deps sample_layout_params sample_state))
     = [''sw'', ''sw__empty_true'']
   \<and> map edge_id (edges (onLayout sample_deps sample_layout_params sample_state))
     = [''esw-sw__empty_true'', ''esw__empty_true-end'']
   \<and> map animated (edges (onLayout sample_deps sample_layout_params sample_state))
     = [Some True, Some False]
   \<and> map edge_isLayouted (edges (onLayout sample_deps sample_layout_params sample_state))
     = [Some True, Some True]
   \<and> map (\<lambda>n. data_isLayouted (data n))
        (nodes (onLayout sample_deps sample_layout_params sample_state))
     = [Some True, Some True]"
proof -
  let ?st' = "onLayout sample_deps sample_layout_params sample_state"
  let ?ns = "initialNodes sample_layout_params"
  let ?es = "initialEdges sample_layout_params"
  have ns: "?ns = (if useInitialNodes sample_layout_params then initialNodes sample_layout_params
                   else nodes sample_state)"
    and es: "?es = (if useInitialNodes sample_layout_params then initialEdges sample_layout_params
                    else edges sample_state)"
    by (simp_all add: sample_layout_params_def)
  note fr = onLayout_frame [OF ns es, of sample_deps]
  have l: "length (edges ?st') = 2" "length (nodes ?st') = 2"
    using fr by (simp_all add: sample_layout_params_def)
  have i: "map node_id (nodes ?st') = [''sw'', ''sw__empty_true'']"
    using fr by (simp add: sample_defs)
  have j: "map edge_id (edges ?st') = [''esw-sw__empty_true'', ''esw__empty_true-end'']"
    using fr by (simp add: sample_defs)
  have t0: "target (?es ! 0) = ''sw__empty_true''" and t1: "target (?es ! 1) = ''end''"
    by (simp_all add: sample_defs)
  have s0: "str_includes ''sw__empty_true'' ''empty''" and s1: "\<not> str_includes ''end'' ''empty''"
    by code_simp+
  from fr have e0: "animated (edges ?st' ! 0) = Some True \<and> edge_isLayouted (edges ?st' ! 0) = Some True"
    and e1: "animated (edges ?st' ! 1) = Some False \<and> edge_isLayouted (edges ?st' ! 1) = Some True"
    and n0: "data_isLayouted (data (nodes ?st' ! 0)) = Some True"
    and n1: "data_isLayouted (data (nodes ?st' ! 1)) = Some True"
    using t0 t1 s0 s1 by (simp_all add: sample_layout_params_def)
  have two: "\<And>f xs. length xs = 2 \<Longrightarrow> map f xs = [f (xs ! 0), f (xs ! 1)]"
    by (auto simp: list_eq_iff_nth_eq less_Suc_eq_0_disj numeral_2_eq_2)
  have A: "map animated (edges ?st') = [Some True, Some False]"
    using two [OF l(1), of animated] e0 e1 by simp
  have B: "map edge_isLayouted (edges ?st') = [Some True, Some True]"
    using two [OF l(1), of edge_isLayouted] e0 e1 by simp
  have C: "map (\<lambda>n. data_isLayouted (data n)) (nodes ?st') = [Some True, Some True]"
    using two [OF l(2), of "\<lambda>n. data_isLayouted (data n)"] n0 n1 by simp
  from i j A B C show ?thesis by (intro conjI)
qed


subsection \<open>Deleting a range\<close>

lemma reconnect_append:
  "reconnect d sources targets fin
     = fin @ concat (map (\<lambda>t. concat (map (\<lambda>p. createCustomEdgeMeta d (source p)
                                   (if source t = ''trigger_start'' then ''trigger_end'' else target t)
                                   (label p)) sources)) targets)"
  unfolding reconnect_def
  by (induction targets arbitrary: fin) (simp_all add: Let_def)

lemma nodes_updateDefinition [simp]: "nodes (updateDefinition d st) = nodes st"
  and edges_updateDefinition [simp]: "edges (updateDefinition d st) = edges st"
  and props_updateDefinition [simp]: "v2Properties (updateDefinition d st) = v2Properties st"
  by (simp_all add: updateDefinition_def Let_def split_def)

lemma nodes_onLayout_down:
  "nodes (onLayout d layout_down st)
     = map (\<lambda>n. n \<lparr> position := layoutPosition d (nodes st) (edges st) ''DOWN'' n,
                    data := (data n) \<lparr> data_isLayouted := Some True \<rparr> \<rparr>) (nodes st)"
  by (simp add: onLayout_def layout_down_def getLayoutedWorkflowElements_def Let_def comp_def)

lemma edges_onLayout_down:
  "edges (onLayout d layout_down st)
     = map (\<lambda>edge. edge \<lparr> animated := Some (str_includes (target edge) ''empty''),
                          edge_isLayouted := Some True \<rparr>) (edges st)"
  by (simp add: onLayout_def layout_down_def getLayoutedWorkflowElements_def Let_def)

lemma props_onLayout [simp]: "v2Properties (onLayout d params st) = v2Properties st"
  by (simp add: onLayout_def Let_def split_def)

lemma node_ids_onLayout_down [simp]:
  "map node_id (nodes (onLayout d layout_down st)) = map node_id (nodes st)"
  by (simp add: nodes_onLayout_down comp_def)

lemma end_marker_not_trigger_start: "ty @ ''__end__'' @ i \<noteq> ''trigger_start''"
proof
  assume "ty @ ''__end__'' @ i = ''trigger_start''"
  then have "\<exists>p q. ''trigger_start'' = p @ ''__end__'' @ q" by metis
  then have "str_includes ''trigger_start'' ''__end__''"
    by (simp only: str_includes_iff)
  then show False by code_simp
qed


lemma node_id_position_update [simp]:
  "map node_id (ns [k := (ns ! k) \<lparr> position := f \<rparr>]) = map node_id ns"
proof (rule nth_equalityI)
  show "length (map node_id (ns [k := (ns ! k) \<lparr> position := f \<rparr>])) = length (map node_id ns)"
    by simp
next
  fix j
  assume "j < length (map node_id (ns [k := (ns ! k) \<lparr> position := f \<rparr>]))"
  then show "map node_id (ns [k := (ns ! k) \<lparr> position := f \<rparr>]) ! j = map node_id ns ! j"
    by (cases "j = k") simp_all
qed

lemma deleteNodes_found:
  assumes np: "i \<notin> set PROTECTED_NODE_IDS"
    and si: "findIndex (\<lambda>node. i = node_id node) (nodes st) = Some s"
  shows "deleteNodes d (StringId i) st = delete_range d i s (end_index (nodes st) s) st"
  using np si by (simp add: deleteNodes_def)

lemma delete_range_result:
  assumes "e + 1 < length (nodes st)"
  shows "fst (delete_range d i s e st) = Inr [i]"
  using assms by (simp add: delete_range_def Let_def)

lemma delete_range_node_ids:
  assumes nxt: "e + 1 < length (nodes st)"
    and mk: "\<forall>dat k. node_id (createDefaultNodeV2 d dat k) = k"
  shows "map node_id (nodes (snd (delete_range d i s e st)))
           = map node_id (take s (nodes st)) @ map node_id (drop (e + 1) (nodes st))"
proof -
  have dr: "map node_id (drop (e + 1) (nodes st))
              = node_id (nodes st ! (e + 1)) # map node_id (drop (e + 2) (nodes st))"
    using nxt by (simp add: Cons_nth_drop_Suc [symmetric])
  have "map node_id (nodes (snd (delete_range d i s e st)))
           = map node_id (take s (nodes st)) @ node_id (nodes st ! (e + 1))
               # map node_id (drop (e + 2) (nodes st))"
    using nxt mk
    by (simp add: delete_range_def Let_def take_map [symmetric] drop_map [symmetric]
             del: take_map drop_map)
  with dr show ?thesis by simp
qed

lemma delete_range_props:
  assumes "e + 1 < length (nodes st)"
  shows "v2Properties (snd (delete_range d i s e st))
           = (if i \<in> set trigger_kinds then AList.delete i (v2Properties st) else v2Properties st)"
  using assms by (simp add: delete_range_def Let_def)

lemma end_index_not_trigger_start:
  assumes np: "i \<notin> set PROTECTED_NODE_IDS"
    and si: "findIndex (\<lambda>node. i = node_id node) ns = Some s"
  shows "node_id (ns ! end_index ns s) \<noteq> ''trigger_start''"
proof -
  let ?cid = "step_type (data (ns ! s)) @ ''__end__'' @ node_id (ns ! s)"
  show ?thesis
  proof (cases "findIndex (\<lambda>node. node_id node = ?cid) ns")
    case None
    then have "end_index ns s = s" by (simp add: end_index_def Let_def)
    moreover from findIndex_Some [OF si] have "node_id (ns ! s) = i" by simp
    ultimately show ?thesis using np by (auto simp: PROTECTED_NODE_IDS_def)
  next
    case (Some k)
    then have "end_index ns s = k" by (simp add: end_index_def Let_def)
    with findIndex_Some [OF Some] have "node_id (ns ! end_index ns s) = ?cid" by simp
    then show ?thesis by (simp only: end_marker_not_trigger_start) simp
  qed
qed

lemma exit_in_range:
  assumes "s \<le> e" and "e < length ns"
  shows "node_id (ns ! e) \<in> set (map node_id (slice s (e + 1) ns))"
proof -
  have "slice s (e + 1) ns ! (e - s) = ns ! e"
    using assms by (simp add: slice_def)
  moreover have "e - s < length (slice s (e + 1) ns)"
    using assms by (simp add: slice_def)
  ultimately have "ns ! e \<in> set (slice s (e + 1) ns)"
    by (metis nth_mem)
  then show ?thesis by simp
qed

lemma delete_range_edges:
  assumes ex: "node_id (nodes st ! e) \<noteq> ''trigger_start''"
    and en: "node_id (nodes st ! s) = i"
    and se: "s \<le> e"
    and nxt: "e + 1 < length (nodes st)"
  shows "edges (snd (delete_range d i s e st))
           = map (\<lambda>edge. edge \<lparr> animated := Some (str_includes (target edge) ''empty''),
                                edge_isLayouted := Some True \<rparr>)
               (filter (\<lambda>edge. source edge \<notin> set (map node_id (slice s (e + 1) (nodes st)))
                              \<and> target edge \<notin> set (map node_id (slice s (e + 1) (nodes st))))
                  (edges st)
                @ (if i \<in> set trigger_kinds
                      \<and> (\<exists>edge \<in> set (edges st). source edge = ''trigger_start'' \<and> target edge \<noteq> i)
                   then []
                   else concat (map (\<lambda>t. concat (map (\<lambda>p. createCustomEdgeMeta d (source p) (target t)
                                                               (label p))
                                                  (filter (\<lambda>edge. target edge = i) (edges st))))
                                 (filter (\<lambda>edge. source edge = node_id (nodes st ! e)) (edges st)))))"
    (is "_ = map ?flags (?kept @ (if ?guard then [] else ?recon))")
proof -
  let ?ns = "nodes st" and ?es = "edges st"
  let ?range = "map node_id (slice s (e + 1) ?ns)"
  let ?fin = "filter (\<lambda>edge. \<not> (source edge \<in> set ?range \<or> target edge \<in> set ?range)) ?es"
  have kept: "?fin = ?kept"
    by simp
  have inr: "node_id (?ns ! e) \<in> set ?range"
    using exit_in_range [OF se, of "nodes st"] nxt by force
  have sw: "(\<lambda>edge. i = target edge) = (\<lambda>edge. target edge = i)"
    "(\<lambda>edge. node_id (?ns ! e) = source edge) = (\<lambda>edge. source edge = node_id (?ns ! e))"
    by (auto simp: fun_eq_iff)
  show ?thesis
  proof (cases ?guard)
    case True
    then have le: "list_ex (\<lambda>edge. source edge = ''trigger_start'' \<and> target edge \<noteq> i) ?es"
      and tk: "i \<in> set trigger_kinds"
      by (auto simp: list_ex_iff)
    have raw: "edges (snd (delete_range d i s e st))
                 = map ?flags
                     (reconnect d
                        (filter (\<lambda>edge. i = target edge) (filter (\<lambda>edge. source edge \<notin> set ?range) ?es))
                        (filter (\<lambda>edge. node_id (?ns ! e) = source edge)
                           (filter (\<lambda>edge. source edge \<notin> set ?range) ?es))
                        ?fin)"
      using nxt en le tk
      by (simp add: delete_range_def Let_def edges_onLayout_down del: set_map filter_filter)
    have tg0: "filter (\<lambda>edge. node_id (?ns ! e) = source edge)
                 (filter (\<lambda>edge. source edge \<notin> set ?range) ?es) = []"
      using inr by (auto simp: filter_empty_conv)
    have rhs: "(if ?guard then [] else ?recon) = []"
      using True by (rule if_P)
    show ?thesis
      unfolding raw tg0 rhs reconnect_append kept by simp
  next
    case False
    then have le: "\<not> (i \<in> set trigger_kinds
                        \<and> list_ex (\<lambda>edge. source edge = ''trigger_start'' \<and> target edge \<noteq> i) ?es)"
      by (auto simp: list_ex_iff)
    have es1: "(if i \<in> set trigger_kinds
                   \<and> list_ex (\<lambda>edge. source edge = ''trigger_start'' \<and> target edge \<noteq> i) ?es
                then filter (\<lambda>edge. source edge \<notin> set ?range) ?es else ?es) = ?es"
      using le by (rule if_not_P)
    have "edges (snd (delete_range d i s e st))
            = map ?flags
                (reconnect d
                   (filter (\<lambda>edge. i = target edge)
                      (if i \<in> set trigger_kinds
                          \<and> list_ex (\<lambda>edge. source edge = ''trigger_start'' \<and> target edge \<noteq> i) ?es
                       then filter (\<lambda>edge. source edge \<notin> set ?range) ?es else ?es))
                   (filter (\<lambda>edge. node_id (?ns ! e) = source edge)
                      (if i \<in> set trigger_kinds
                          \<and> list_ex (\<lambda>edge. source edge = ''trigger_start'' \<and> target edge \<noteq> i) ?es
                       then filter (\<lambda>edge. source edge \<notin> set ?range) ?es else ?es))
                   ?fin)"
      using nxt en unfolding delete_range_def Let_def
      by (simp add: edges_onLayout_down del: set_map filter_filter cong: if_cong)
    then have raw: "edges (snd (delete_range d i s e st))
                 = map ?flags
                     (reconnect d (filter (\<lambda>edge. target edge = i) ?es)
                        (filter (\<lambda>edge. source edge = node_id (?ns ! e)) ?es) ?fin)"
      unfolding es1 sw .
    have rec: "concat (map (\<lambda>t. concat (map (\<lambda>p. createCustomEdgeMeta d (source p)
                                   (if source t = ''trigger_start'' then ''trigger_end'' else target t)
                                   (label p)) (filter (\<lambda>edge. target edge = i) ?es)))
                      (filter (\<lambda>edge. source edge = node_id (?ns ! e)) ?es))
             = ?recon"
      using ex by (intro arg_cong [where f = concat] map_cong) auto
    have rhs: "(if ?guard then [] else ?recon) = ?recon"
      using False by (rule if_not_P)
    show ?thesis
      unfolding raw rhs reconnect_append kept rec by simp
  qed
qed


lemma range_split:
  assumes "s \<le> e + 1"
  shows "ns = take s ns @ slice s (e + 1) ns @ drop (e + 1) ns"
proof -
  have "e + 1 - s + s = e + 1"
    using assms by simp
  then have "drop (e + 1 - s) (drop s ns) = drop (e + 1) ns"
    by (simp only: drop_drop)
  moreover have "take (e + 1 - s) (drop s ns) @ drop (e + 1 - s) (drop s ns) = drop s ns"
    by (rule append_take_drop_id)
  ultimately have "slice s (e + 1) ns @ drop (e + 1) ns = drop s ns"
    by (simp only: slice_def)
  then show ?thesis by simp
qed

lemma outside_range_survives:
  assumes se: "s \<le> e"
    and a: "a \<in> node_id ` set ns"
    and na: "a \<notin> set (map node_id (slice s (e + 1) ns))"
  shows "a \<in> set (map node_id (take s ns) @ map node_id (drop (e + 1) ns))"
proof -
  from se have "s \<le> e + 1" by simp
  from range_split [OF this, of ns]
  have "set ns = set (take s ns) \<union> set (slice s (e + 1) ns) \<union> set (drop (e + 1) ns)"
    by (metis set_append sup_assoc)
  with a na show ?thesis by auto
qed

text \<open>
  When the range ends the node list, line 722 throws and nothing is written.
\<close>

lemma deleteNodes_range_at_end:
  assumes "i \<notin> set PROTECTED_NODE_IDS"
    and "findIndex (\<lambda>node. i = node_id node) (nodes st) = Some s"
    and "\<not> end_index (nodes st) s + 1 < length (nodes st)"
  shows "deleteNodes d (StringId i) st
           = (Inl (TypeError ''Cannot set properties of undefined (setting position)''), st)"
  using assms by (simp add: deleteNodes_def delete_range_def Let_def)

text \<open>
  When the node with the derived id stands before the target, the range of line 681 is
  empty: no node is removed, and the node behind the end boundary is in the list twice.
\<close>

lemma deleteNodes_inverted_range:
  "findIndex (\<lambda>node. ''fe'' = node_id node) (nodes sample_inverted_state) = Some 3
   \<and> end_index (nodes sample_inverted_state) 3 = 1
   \<and> fst (deleteNodes sample_deps (StringId ''fe'') sample_inverted_state) = Inr [''fe'']
   \<and> map node_id (nodes (snd (deleteNodes sample_deps (StringId ''fe'') sample_inverted_state)))
       = [''start'', ''foreach__end__fe'', ''inner'', ''inner'', ''fe'', ''end'']"
  by code_simp

text \<open>
  Claim C3, as the code has it. Let the target \<open>i\<close> be no protected id and the id of a
  node, at index \<open>s\<close>; let \<open>e\<close> be the index of the node with the derived id
  \<open><type>__end__<i>\<close> when the list has one and \<open>s\<close> otherwise, not before \<open>s\<close>, and let
  a node follow index \<open>e\<close> in the list. Then \<open>deleteNodes\<close> returns \<open>[i]\<close>; the node list
  loses the nodes from \<open>s\<close> to \<open>e\<close> and gains none (the node after the range is rebuilt
  by \<open>createDefaultNodeV2\<close> under its own id, no placeholder is put in); the edges are
  the old edges with no end in the range, followed, for every edge that left the exit
  of the range and every edge that entered its entry, by the edges
  \<open>createCustomEdgeMeta\<close> makes from the source of the entering edge to the target of the
  leaving edge under the label of the entering edge, but by none of these when the
  target is a trigger kind and \<open>trigger_start\<close> has an edge to another node; all of them
  carry the flags of the layout pass. The entry of a trigger kind leaves the property
  store. When every edge ended in nodes of the graph, no edge into the entry started in
  the range and no edge out of the exit ended in it, and \<open>createCustomEdgeMeta\<close> builds
  edges between the two ids it is given, every edge ends in nodes of the graph after
  the deletion.
\<close>

theorem deleteNodes_range:
  assumes np: "i \<notin> set PROTECTED_NODE_IDS"
    and si: "findIndex (\<lambda>node. i = node_id node) (nodes st) = Some s"
    and ei: "e = end_index (nodes st) s"
    and se: "s \<le> e"
    and nxt: "e + 1 < length (nodes st)"
    and rg: "rng = map node_id (slice s (e + 1) (nodes st))"
    and mk: "\<forall>dat k. node_id (createDefaultNodeV2 d dat k) = k"
    and res: "st' = snd (deleteNodes d (StringId i) st)"
  shows "fst (deleteNodes d (StringId i) st) = Inr [i]
       \<and> map node_id (nodes st')
           = map node_id (take s (nodes st)) @ map node_id (drop (e + 1) (nodes st))
       \<and> edges st'
           = map (\<lambda>edge. edge \<lparr> animated := Some (str_includes (target edge) ''empty''),
                                edge_isLayouted := Some True \<rparr>)
               (filter (\<lambda>edge. source edge \<notin> set rng \<and> target edge \<notin> set rng) (edges st)
                @ (if i \<in> set trigger_kinds
                      \<and> (\<exists>edge \<in> set (edges st). source edge = ''trigger_start'' \<and> target edge \<noteq> i)
                   then []
                   else concat (map (\<lambda>t. concat (map (\<lambda>p. createCustomEdgeMeta d (source p) (target t)
                                                               (label p))
                                                  (filter (\<lambda>edge. target edge = i) (edges st))))
                                 (filter (\<lambda>edge. source edge = node_id (nodes st ! e)) (edges st)))))
       \<and> v2Properties st'
           = (if i \<in> set trigger_kinds then AList.delete i (v2Properties st) else v2Properties st)
       \<and> ((\<forall>edge \<in> set (edges st). source edge \<in> node_id ` set (nodes st)
                                      \<and> target edge \<in> node_id ` set (nodes st))
            \<and> (\<forall>p \<in> set (edges st). target p = i \<longrightarrow> source p \<notin> set rng)
            \<and> (\<forall>t \<in> set (edges st). source t = node_id (nodes st ! e) \<longrightarrow> target t \<notin> set rng)
            \<and> (\<forall>a b l. \<forall>edge \<in> set (createCustomEdgeMeta d a b l). source edge = a \<and> target edge = b)
          \<longrightarrow> (\<forall>edge \<in> set (edges st'). source edge \<in> node_id ` set (nodes st')
                                        \<and> target edge \<in> node_id ` set (nodes st')))"
proof -
  let ?ns = "nodes st" and ?es = "edges st"
  from findIndex_Some [OF si] have en: "node_id (?ns ! s) = i" by simp
  have eq: "deleteNodes d (StringId i) st = delete_range d i s e st"
    unfolding ei by (rule deleteNodes_found [OF np si])
  have ex: "node_id (?ns ! e) \<noteq> ''trigger_start''"
    unfolding ei by (rule end_index_not_trigger_start [OF np si])
  have r1: "fst (deleteNodes d (StringId i) st) = Inr [i]"
    unfolding eq by (rule delete_range_result [OF nxt])
  have r2: "map node_id (nodes st')
              = map node_id (take s ?ns) @ map node_id (drop (e + 1) ?ns)"
    unfolding res eq by (rule delete_range_node_ids [OF nxt mk])
  have r3: "edges st'
           = map (\<lambda>edge. edge \<lparr> animated := Some (str_includes (target edge) ''empty''),
                                edge_isLayouted := Some True \<rparr>)
               (filter (\<lambda>edge. source edge \<notin> set rng \<and> target edge \<notin> set rng) ?es
                @ (if i \<in> set trigger_kinds
                      \<and> (\<exists>edge \<in> set ?es. source edge = ''trigger_start'' \<and> target edge \<noteq> i)
                   then []
                   else concat (map (\<lambda>t. concat (map (\<lambda>p. createCustomEdgeMeta d (source p) (target t)
                                                               (label p))
                                                  (filter (\<lambda>edge. target edge = i) ?es)))
                                 (filter (\<lambda>edge. source edge = node_id (?ns ! e)) ?es))))"
    unfolding res eq rg by (rule delete_range_edges [OF ex en se nxt])
  have r4: "v2Properties st'
           = (if i \<in> set trigger_kinds then AList.delete i (v2Properties st) else v2Properties st)"
    unfolding res eq by (rule delete_range_props [OF nxt])
  have r5: "\<forall>edge \<in> set (edges st'). source edge \<in> node_id ` set (nodes st')
                                        \<and> target edge \<in> node_id ` set (nodes st')"
    if cl: "\<forall>edge \<in> set ?es. source edge \<in> node_id ` set ?ns \<and> target edge \<in> node_id ` set ?ns"
      and pin: "\<forall>p \<in> set ?es. target p = i \<longrightarrow> source p \<notin> set rng"
      and sout: "\<forall>t \<in> set ?es. source t = node_id (?ns ! e) \<longrightarrow> target t \<notin> set rng"
      and mkE: "\<forall>a b l. \<forall>edge \<in> set (createCustomEdgeMeta d a b l). source edge = a \<and> target edge = b"
  proof
    fix edge assume "edge \<in> set (edges st')"
    then obtain edge0 where
      mem: "edge0 \<in> set (filter (\<lambda>edge. source edge \<notin> set rng \<and> target edge \<notin> set rng) ?es)
              \<or> edge0 \<in> set (if i \<in> set trigger_kinds
                      \<and> (\<exists>edge \<in> set ?es. source edge = ''trigger_start'' \<and> target edge \<noteq> i)
                   then []
                   else concat (map (\<lambda>t. concat (map (\<lambda>p. createCustomEdgeMeta d (source p) (target t)
                                                               (label p))
                                                  (filter (\<lambda>edge. target edge = i) ?es)))
                                 (filter (\<lambda>edge. source edge = node_id (?ns ! e)) ?es)))"
      and fl: "edge = edge0 \<lparr> animated := Some (str_includes (target edge0) ''empty''),
                               edge_isLayouted := Some True \<rparr>"
      unfolding r3 set_map set_append by blast
    from fl have ends: "source edge = source edge0" "target edge = target edge0"
      by simp_all
    from mem have
      e0: "edge0 \<in> set (filter (\<lambda>edge. source edge \<notin> set rng \<and> target edge \<notin> set rng) ?es)
             \<or> (\<exists>t \<in> set ?es. \<exists>p \<in> set ?es.
                    source t = node_id (?ns ! e) \<and> target p = i
                    \<and> edge0 \<in> set (createCustomEdgeMeta d (source p) (target t) (label p)))"
      by (auto split: if_splits)
    have ok: "source edge0 \<in> node_id ` set ?ns \<and> source edge0 \<notin> set rng
              \<and> target edge0 \<in> node_id ` set ?ns \<and> target edge0 \<notin> set rng"
      using e0
    proof
      assume "edge0 \<in> set (filter (\<lambda>edge. source edge \<notin> set rng \<and> target edge \<notin> set rng) ?es)"
      with cl show ?thesis by auto
    next
      assume "\<exists>t \<in> set ?es. \<exists>p \<in> set ?es.
                source t = node_id (?ns ! e) \<and> target p = i
                \<and> edge0 \<in> set (createCustomEdgeMeta d (source p) (target t) (label p))"
      then obtain t p where tp: "t \<in> set ?es" "p \<in> set ?es" "source t = node_id (?ns ! e)"
        "target p = i" "edge0 \<in> set (createCustomEdgeMeta d (source p) (target t) (label p))"
        by blast
      from mkE tp(5) have "source edge0 = source p" "target edge0 = target t" by auto
      with cl pin sout tp(1-4) show ?thesis by auto
    qed
    have ids: "set (map node_id (nodes st'))
                 = set (map node_id (take s ?ns) @ map node_id (drop (e + 1) ?ns))"
      unfolding r2 ..
    from ok have "source edge0 \<in> set (map node_id (nodes st'))"
      unfolding ids rg by (intro outside_range_survives [OF se]) blast+
    moreover from ok have "target edge0 \<in> set (map node_id (nodes st'))"
      unfolding ids rg by (intro outside_range_survives [OF se]) blast+
    ultimately show "source edge \<in> node_id ` set (nodes st') \<and> target edge \<in> node_id ` set (nodes st')"
      using ends by simp
  qed
  from r1 r2 r3 r4 r5 show ?thesis by blast
qed


theorem deleteNodes_range_witness:
  "fst (deleteNodes sample_deps (StringId ''fe'') sample_foreach_state) = Inr [''fe'']
   \<and> end_index (nodes sample_foreach_state) 3 = 5
   \<and> map node_id (nodes (snd (deleteNodes sample_deps (StringId ''fe'') sample_foreach_state)))
       = [''start'', ''trigger_start'', ''trigger_end'', ''end'']
   \<and> edge_ends (snd (deleteNodes sample_deps (StringId ''fe'') sample_foreach_state))
       = [(''start'', ''trigger_start''), (''trigger_start'', ''trigger_end''),
          (''trigger_end'', ''end'')]
   \<and> list_all (\<lambda>edge. source edge \<in> set [''start'', ''trigger_start'', ''trigger_end'', ''end'']
                       \<and> target edge \<in> set [''start'', ''trigger_start'', ''trigger_end'', ''end''])
        (edges (snd (deleteNodes sample_deps (StringId ''fe'') sample_foreach_state)))"
proof -
  let ?st = sample_foreach_state
  let ?st' = "snd (deleteNodes sample_deps (StringId ''fe'') ?st)"
  let ?rng = "map node_id (slice 3 (5 + 1) (nodes ?st))"
  have np: "''fe'' \<notin> set PROTECTED_NODE_IDS"
    by (simp add: PROTECTED_NODE_IDS_def)
  have si: "findIndex (\<lambda>node. ''fe'' = node_id node) (nodes ?st) = Some 3"
    by code_simp
  have ei: "5 = end_index (nodes ?st) 3"
    by code_simp
  have se: "(3::nat) \<le> 5" by simp
  have nxt: "5 + 1 < length (nodes ?st)"
    by (simp add: sample_defs)
  have mk: "\<forall>dat k. node_id (createDefaultNodeV2 sample_deps dat k) = k"
    by (simp add: sample_deps_def sample_node_def)
  have mkE: "\<forall>a b l. \<forall>edge \<in> set (createCustomEdgeMeta sample_deps a b l).
               source edge = a \<and> target edge = b"
    by (simp add: sample_deps_def sample_edge_def)
  have rng: "?rng = [''fe'', ''inner'', ''foreach__end__fe'']"
    by code_simp
  have ex: "node_id (nodes ?st ! 5) = ''foreach__end__fe''"
    by code_simp
  have cl: "\<forall>edge \<in> set (edges ?st). source edge \<in> node_id ` set (nodes ?st)
                                      \<and> target edge \<in> node_id ` set (nodes ?st)"
    by (simp add: sample_defs)
  have pin: "\<forall>p \<in> set (edges ?st). target p = ''fe'' \<longrightarrow> source p \<notin> set ?rng"
    unfolding rng by (simp add: sample_defs)
  have sout: "\<forall>t \<in> set (edges ?st). source t = node_id (nodes ?st ! 5) \<longrightarrow> target t \<notin> set ?rng"
    unfolding rng ex by (simp add: sample_defs)
  note th = deleteNodes_range [OF np si ei se nxt refl mk refl]
  from th have r1: "fst (deleteNodes sample_deps (StringId ''fe'') ?st) = Inr [''fe'']"
    by blast
  from th have "map node_id (nodes ?st')
                  = map node_id (take 3 (nodes ?st)) @ map node_id (drop (5 + 1) (nodes ?st))"
    by blast
  also have "\<dots> = [''start'', ''trigger_start'', ''trigger_end'', ''end'']"
    by code_simp
  finally have r2: "map node_id (nodes ?st') = [''start'', ''trigger_start'', ''trigger_end'', ''end'']" .
  from th cl pin sout mkE
  have "\<forall>edge \<in> set (edges ?st'). source edge \<in> node_id ` set (nodes ?st')
                                   \<and> target edge \<in> node_id ` set (nodes ?st')"
    by blast
  moreover have "node_id ` set (nodes ?st') = set [''start'', ''trigger_start'', ''trigger_end'', ''end'']"
    using r2 by (metis set_map)
  ultimately have r5: "list_all (\<lambda>edge. source edge \<in> set [''start'', ''trigger_start'', ''trigger_end'', ''end'']
                       \<and> target edge \<in> set [''start'', ''trigger_start'', ''trigger_end'', ''end''])
        (edges ?st')"
    by (simp only: list_all_iff)
  have r3: "edge_ends ?st' = [(''start'', ''trigger_start''), (''trigger_start'', ''trigger_end''),
          (''trigger_end'', ''end'')]"
    by code_simp
  from r1 ei r2 r3 r5 show ?thesis by simp
qed

text \<open>
  Claim C3 as stated fails on three documents. In the first, send-slack has no outgoing
  edge; its deletion puts no placeholder in its place and leaves \<open>trigger_end\<close> without
  an outgoing edge. In the second, the manual trigger is deleted while the alert
  trigger stays; its predecessor \<open>trigger_start\<close> is not reconnected to its successor
  \<open>trigger_end\<close>. In the third, the deleted step has an edge to itself; the
  reconnection builds edges from and to the deleted node again.
\<close>

theorem deleteNodes_range_counterexample:
  "fst (deleteNodes sample_deps (StringId ''send-slack'') sample_open_state) = Inr [''send-slack'']
   \<and> filter (\<lambda>edge. source edge = ''send-slack'') (edges sample_open_state) = []
   \<and> map node_id (nodes (snd (deleteNodes sample_deps (StringId ''send-slack'') sample_open_state)))
       = [''start'', ''trigger_start'', ''manual'', ''trigger_end'', ''end'']
   \<and> edge_ends (snd (deleteNodes sample_deps (StringId ''send-slack'') sample_open_state))
       = [(''start'', ''trigger_start''), (''trigger_start'', ''manual''),
          (''manual'', ''trigger_end'')]
   \<and> fst (deleteNodes sample_deps (StringId ''manual'') sample_two_triggers_state) = Inr [''manual'']
   \<and> edge_ends sample_two_triggers_state
       = [(''start'', ''trigger_start''), (''trigger_start'', ''manual''),
          (''manual'', ''trigger_end''), (''trigger_start'', ''alert''),
          (''alert'', ''trigger_end''), (''trigger_end'', ''send-slack''),
          (''send-slack'', ''end'')]
   \<and> edge_ends (snd (deleteNodes sample_deps (StringId ''manual'') sample_two_triggers_state))
       = [(''start'', ''trigger_start''), (''trigger_start'', ''alert''),
          (''alert'', ''trigger_end''), (''trigger_end'', ''send-slack''),
          (''send-slack'', ''end'')]
   \<and> map node_id (nodes (snd (deleteNodes sample_deps (StringId ''b'') sample_loop_state)))
       = [''start'', ''end'']
   \<and> edge_ends (snd (deleteNodes sample_deps (StringId ''b'') sample_loop_state))
       = [(''start'', ''b''), (''b'', ''b''), (''start'', ''end''), (''b'', ''end'')]"
  by code_simp


subsection \<open>The round trip through the graph\<close>

lemma steps_ids_append [simp]: "steps_ids (as @ bs) = steps_ids as @ steps_ids bs"
  by (induction as) simp_all

lemma all_well_shaped_append [simp]:
  "all_well_shaped (as @ bs) \<longleftrightarrow> all_well_shaped as \<and> all_well_shaped bs"
  by (induction as) simp_all

lemma entry_append: "entry (as @ bs) k = entry as (entry bs k)"
  by (cases as) simp_all

lemma step_id_in_step_ids: "step_id (step_data s) \<in> set (step_ids s)"
  by (cases s) simp

lemma step_id_in_steps_ids: "s \<in> set ss \<Longrightarrow> step_id (step_data s) \<in> set (steps_ids ss)"
  by (induction ss) (auto simp: step_id_in_step_ids)

lemma entry_cases: "entry ss k = k \<or> entry ss k \<in> set (steps_ids ss)"
  by (cases ss) (auto simp: step_id_in_step_ids)

lemma node_ids_of_steps:
  "map node_id (step_nodes pos nested s) = step_ids s"
  "map node_id (steps_nodes pos nested ss) = steps_ids ss"
  by (induction pos nested s and pos nested ss rule: step_nodes_steps_nodes.induct)
     (simp_all add: step_node_def boundary_node_def)

lemma edge_sources_of_steps:
  "set (map source (step_edges s k)) \<subseteq> set (step_ids s)"
  "set (map source (steps_edges ss k)) \<subseteq> set (steps_ids ss)"
  by (induction s k and ss k rule: step_edges_steps_edges.induct)
     (auto simp: compile_edge_def split: if_splits, blast+)

text \<open>What two paths share at their end.\<close>

lemma longest_common_prefix_append:
  "longest_common_prefix (c @ as) (c @ bs) = c @ longest_common_prefix as bs"
  by (induction c) simp_all

lemma longest_common_prefix_last:
  assumes "as = [] \<or> bs = [] \<or> last as \<noteq> last bs"
  shows "longest_common_prefix (rev as) (rev bs) = []"
proof (cases as rule: rev_cases)
  case Nil
  then show ?thesis by simp
next
  case (snoc as' a)
  note a = this
  show ?thesis
  proof (cases bs rule: rev_cases)
    case Nil
    then show ?thesis by simp
  next
    case (snoc bs' b)
    with a assms have "a \<noteq> b" by simp
    with a snoc show ?thesis by simp
  qed
qed

lemma common_suffix_append:
  assumes "as = [] \<or> bs = [] \<or> last as \<noteq> last bs"
  shows "common_suffix (as @ c) (bs @ c) = c"
  using longest_common_prefix_last [OF assms]
  by (simp add: common_suffix_def longest_common_prefix_append)

lemma drop_suffix_append [simp]: "drop_suffix c (as @ c) = as"
  by (simp add: drop_suffix_def)


lemma embeds_append:
  "embeds N E (as @ bs) k \<longleftrightarrow> embeds N E as (entry bs k) \<and> embeds N E bs k"
  by (induction as) (simp_all add: entry_append)

text \<open>One round of the traversal, read through the three lookups.\<close>

lemma walk_at_stop: "walk (Suc n) N E k k = []"
  by simp

lemma walk_leaf:
  assumes "cur \<noteq> stop" and "node_data N cur = Some d"
    and "componentType d \<noteq> ''start''" and "componentType d \<noteq> ''trigger''"
    and "componentType d \<noteq> ''switch''" and "componentType d \<noteq> ''container''"
    and "next_of E cur = Some nx"
  shows "walk (Suc n) N E cur stop = V2Step d [] [] [] # walk n N E nx stop"
  using assms by (auto simp: node_data_def next_of_def Let_def split: option.splits)

lemma walk_skip:
  assumes "cur \<noteq> stop" and "node_data N cur = Some d"
    and "componentType d = ''start'' \<or> componentType d = ''trigger''"
    and "next_of E cur = Some nx"
  shows "walk (Suc n) N E cur stop = walk n N E nx stop"
  using assms by (auto simp: node_data_def next_of_def Let_def split: option.splits)

lemma walk_switch:
  assumes "cur \<noteq> stop" and "node_data N cur = Some d"
    and "componentType d = ''switch''"
    and "branch_of E cur ''false'' = Some nf" and "branch_of E cur ''true'' = Some nt"
  shows "walk (Suc n) N E cur stop
           = V2Step d (drop_suffix (common_suffix (walk n N E nf stop) (walk n N E nt stop))
                         (walk n N E nt stop))
                      (drop_suffix (common_suffix (walk n N E nf stop) (walk n N E nt stop))
                         (walk n N E nf stop)) []
               # common_suffix (walk n N E nf stop) (walk n N E nt stop)"
  using assms by (auto simp: node_data_def branch_of_def Let_def split: option.splits)

lemma walk_container:
  assumes "cur \<noteq> stop" and "node_data N cur = Some d"
    and "componentType d = ''container''"
    and "next_of E cur = Some nb" and "next_of E (boundary_id d) = Some nx"
  shows "walk (Suc n) N E cur stop
           = V2Step d [] [] (walk n N E nb (boundary_id d)) # walk n N E nx stop"
  using assms by (auto simp: node_data_def next_of_def Let_def split: option.splits)


lemma walk_embedded:
  assumes "all_well_shaped ss" and "embeds N E ss k" and "k \<notin> set (steps_ids ss)"
    and "distinct (steps_ids ss)" and "length (steps_ids ss) < fuel"
  shows "walk fuel N E (entry ss k) k = ss"
  using assms
proof (induction "length (steps_ids ss)" arbitrary: ss k fuel rule: less_induct)
  case less
  from less.prems(5) obtain n where fuel: "fuel = Suc n"
    by (cases fuel) auto
  show ?case
  proof (cases ss)
    case Nil
    then show ?thesis by (simp add: fuel)
  next
    case (Cons s rest)
    obtain d bt bf sq where s: "s = V2Step d bt bf sq"
      by (cases s)
    let ?k' = "entry rest k"
    have cur: "entry ss k = step_id d"
      by (simp add: Cons s)
    have "step_id d \<in> set (steps_ids ss)"
      using step_id_in_step_ids [of s] by (simp add: Cons s)
    with less.prems(3) have ne: "step_id d \<noteq> k"
      by auto
    have nd: "node_data N (step_id d) = Some d"
      and emr: "embeds N E rest k" and shr: "all_well_shaped rest"
      and ct: "componentType d \<noteq> ''start''" "componentType d \<noteq> ''trigger''"
      using less.prems(1,2) by (simp_all add: Cons s)
    have krest: "k \<notin> set (steps_ids rest)" and drest: "distinct (steps_ids rest)"
      using less.prems(3,4) by (simp_all add: Cons)
    consider (switch) "componentType d = ''switch''"
      | (container) "componentType d \<noteq> ''switch''" "componentType d = ''container''"
      | (leaf) "componentType d \<noteq> ''switch''" "componentType d \<noteq> ''container''"
      by blast
    then show ?thesis
    proof cases
      case leaf
      with less.prems(1,2) have nx: "next_of E (step_id d) = Some ?k'"
        and sh: "bt = []" "bf = []" "sq = []"
        by (simp_all add: Cons s)
      have len: "length (steps_ids rest) < length (steps_ids ss)"
        using leaf by (simp add: Cons s)
      have fl: "length (steps_ids rest) < n"
        using less.prems(5) leaf by (simp add: Cons s fuel)
      have "walk n N E ?k' k = rest"
        by (rule less.hyps [OF len shr emr krest drest fl])
      with walk_leaf [OF ne nd ct leaf nx, of n] show ?thesis
        by (simp add: cur fuel Cons s sh)
    next
      case container
      let ?b = "boundary_id d"
      from container less.prems(1,2)
      have nb: "next_of E (step_id d) = Some (entry sq ?b)"
        and nx: "next_of E ?b = Some ?k'"
        and emb: "embeds N E sq ?b" and shb: "all_well_shaped sq"
        and sh: "bt = []" "bf = []"
        by (simp_all add: Cons s)
      have ids: "steps_ids ss = step_id d # steps_ids sq @ [?b] @ steps_ids rest"
        using container by (simp add: Cons s)
      have "walk n N E (entry sq ?b) ?b = sq"
        using less.prems(4,5) unfolding ids fuel
        by (intro less.hyps [OF _ shb emb]) (auto simp: ids)
      moreover have "walk n N E ?k' k = rest"
        using less.prems(5) unfolding ids fuel
        by (intro less.hyps [OF _ shr emr krest drest]) (auto simp: ids)
      ultimately show ?thesis
        using walk_container [OF ne nd container(2) nb nx, of n]
        by (simp add: cur fuel Cons s sh)
    next
      case switch
      from switch less.prems(1,2)
      have nf: "branch_of E (step_id d) ''false'' = Some (entry bf ?k')"
        and nt: "branch_of E (step_id d) ''true'' = Some (entry bt ?k')"
        and emf: "embeds N E bf ?k'" and emt: "embeds N E bt ?k'"
        and shf: "all_well_shaped bf" and sht: "all_well_shaped bt"
        and sh: "sq = []"
        by (simp_all add: Cons s)
      have ids: "steps_ids ss = step_id d # steps_ids bf @ steps_ids bt @ steps_ids rest"
        using switch by (simp add: Cons s)
      have wf: "walk n N E (entry bf ?k') k = bf @ rest"
      proof -
        have "walk n N E (entry (bf @ rest) k) k = bf @ rest"
          using less.prems(3,4,5) shf shr emf emr unfolding ids fuel
          by (intro less.hyps) (auto simp: ids embeds_append)
        then show ?thesis by (simp add: entry_append)
      qed
      have wt: "walk n N E (entry bt ?k') k = bt @ rest"
      proof -
        have "walk n N E (entry (bt @ rest) k) k = bt @ rest"
          using less.prems(3,4,5) sht shr emt emr unfolding ids fuel
          by (intro less.hyps) (auto simp: ids embeds_append)
        then show ?thesis by (simp add: entry_append)
      qed
      have apart: "bf = [] \<or> bt = [] \<or> last bf \<noteq> last bt"
      proof (rule ccontr)
        assume "\<not> ?thesis"
        then have e: "bf \<noteq> []" "bt \<noteq> []" "last bf = last bt" by auto
        from e(1) have "step_id (step_data (last bf)) \<in> set (steps_ids bf)"
          by (intro step_id_in_steps_ids last_in_set)
        moreover from e(2) have "step_id (step_data (last bt)) \<in> set (steps_ids bt)"
          by (intro step_id_in_steps_ids last_in_set)
        ultimately show False
          using less.prems(4) e(3) unfolding ids by auto
      qed
      have cs: "common_suffix (bf @ rest) (bt @ rest) = rest"
        by (rule common_suffix_append [OF apart])
      show ?thesis
        using walk_switch [OF ne nd switch nf nt, of n]
        by (simp add: cur fuel Cons s sh wf wt cs)
    qed
  qed
qed


lemma disjoint_map: "(\<And>a. a \<in> set as \<Longrightarrow> f a \<notin> S) \<Longrightarrow> set (map f as) \<inter> S = {}"
  by auto

lemma notin_map: "(\<And>a. a \<in> set as \<Longrightarrow> f a \<noteq> b) \<Longrightarrow> b \<notin> set (map f as)"
  by auto

lemma find_append_skip:
  assumes "\<forall>a \<in> set pre. \<not> P a"
  shows "find P (pre @ rest) = find P rest"
  using assms by (induction pre) simp_all

lemma node_data_hit:
  assumes "i \<notin> set (map node_id Npre)" and "node_id nd = i"
  shows "node_data (Npre @ nd # Npost) i = Some (data nd)"
proof -
  from assms(1) have "\<forall>a \<in> set Npre. \<not> node_id a = i" by auto
  from find_append_skip [OF this] assms(2) show ?thesis
    by (simp add: node_data_def)
qed

lemma next_of_hit:
  assumes "i \<notin> set (map source Epre)" and "source e = i"
  shows "next_of (Epre @ e # Epost) i = Some (target e)"
proof -
  from assms(1) have "\<forall>a \<in> set Epre. \<not> source a = i" by auto
  from find_append_skip [OF this] assms(2) show ?thesis
    by (simp add: next_of_def)
qed

lemma branch_of_hit:
  assumes "\<forall>a \<in> set Epre. \<not> (source a = i \<and> label a = Some l)"
    and "source e = i" and "label e = Some l"
  shows "branch_of (Epre @ e # Epost) i l = Some (target e)"
  using find_append_skip [OF assms(1)] assms(2,3)
  by (simp add: branch_of_def)

lemma compile_embeds:
  "distinct (step_ids s) \<Longrightarrow> set (map node_id Npre) \<inter> set (step_ids s) = {}
     \<Longrightarrow> set (map source Epre) \<inter> set (step_ids s) = {}
     \<Longrightarrow> embeds_step (Npre @ step_nodes pos nested s @ Npost)
           (Epre @ step_edges s k @ Epost) s k"
  "distinct (steps_ids ss) \<Longrightarrow> set (map node_id Npre) \<inter> set (steps_ids ss) = {}
     \<Longrightarrow> set (map source Epre) \<inter> set (steps_ids ss) = {}
     \<Longrightarrow> embeds (Npre @ steps_nodes pos nested ss @ Npost)
           (Epre @ steps_edges ss k @ Epost) ss k"
proof (induction s and ss arbitrary: Npre Npost Epre Epost k nested
         and Npre Npost Epre Epost k nested rule: step_ids_steps_ids.induct)
  case (1 d bt bf sq)
  let ?i = "step_id d"
  let ?N = "Npre @ step_nodes pos nested (V2Step d bt bf sq) @ Npost"
  let ?E = "Epre @ step_edges (V2Step d bt bf sq) k @ Epost"
  have iN: "?i \<notin> set (map node_id Npre)" and iE: "?i \<notin> set (map source Epre)"
    using "1.prems"(2,3) by (auto split: if_splits)
  have iE': "\<forall>a \<in> set Epre. source a \<noteq> ?i"
    using iE by (metis image_eqI set_map)
  have nd: "node_data ?N ?i = Some d"
    using node_data_hit [OF iN, of "step_node pos nested d"]
    by (simp add: step_node_def)
  consider (switch) "componentType d = ''switch''"
    | (container) "componentType d \<noteq> ''switch''" "componentType d = ''container''"
    | (leaf) "componentType d \<noteq> ''switch''" "componentType d \<noteq> ''container''"
    by blast
  then show ?case
  proof cases
    case leaf
    have "next_of ?E ?i = Some k"
      using next_of_hit [OF iE, of "compile_edge ?i k None"] leaf
      by (simp add: compile_edge_def)
    with nd leaf show ?thesis by simp
  next
    case switch
    let ?ef = "compile_edge ?i (entry bf k) (Some ''false'')"
    let ?et = "compile_edge ?i (entry bt k) (Some ''true'')"
    have ids: "step_ids (V2Step d bt bf sq) = ?i # steps_ids bf @ steps_ids bt"
      using switch by simp
    have E: "?E = Epre @ ?ef # ?et # steps_edges bf k @ steps_edges bt k @ Epost"
      using switch by simp
    have N: "?N = Npre @ step_node pos nested d # steps_nodes pos True bf
                   @ steps_nodes pos True bt @ Npost"
      using switch by simp
    have "branch_of (Epre @ ?ef # ?et # steps_edges bf k @ steps_edges bt k @ Epost) ?i ''false''
            = Some (target ?ef)"
      using iE' by (intro branch_of_hit) (auto simp: compile_edge_def)
    then have bf: "branch_of ?E ?i ''false'' = Some (entry bf k)"
      unfolding E by (simp add: compile_edge_def)
    have "branch_of ((Epre @ [?ef]) @ ?et # steps_edges bf k @ steps_edges bt k @ Epost) ?i ''true''
            = Some (target ?et)"
      using iE' by (intro branch_of_hit) (auto simp: compile_edge_def)
    then have bt: "branch_of ?E ?i ''true'' = Some (entry bt k)"
      unfolding E by (simp add: compile_edge_def)
    have "embeds ((Npre @ [step_node pos nested d]) @ steps_nodes pos True bf
                    @ (steps_nodes pos True bt @ Npost))
            ((Epre @ [?ef, ?et]) @ steps_edges bf k @ (steps_edges bt k @ Epost)) bf k"
      using "1.prems" switch unfolding ids
      by (intro "1.IH"(1)) (auto simp: step_node_def compile_edge_def)
    then have ef: "embeds ?N ?E bf k"
      unfolding E N by simp
    have "embeds ((Npre @ step_node pos nested d # steps_nodes pos True bf)
                    @ steps_nodes pos True bt @ Npost)
            ((Epre @ ?ef # ?et # steps_edges bf k) @ steps_edges bt k @ Epost) bt k"
      using "1.prems" switch edge_sources_of_steps(2) [of bf k] unfolding ids
      by (intro "1.IH"(2))
         (auto simp: step_node_def compile_edge_def node_ids_of_steps)
    then have et: "embeds ?N ?E bt k"
      unfolding E N by simp
    from nd switch bf bt ef et show ?thesis by simp
  next
    case container
    let ?b = "boundary_id d"
    let ?ec = "compile_edge ?i (entry sq ?b) None"
    let ?eb = "compile_edge ?b k None"
    have ids: "step_ids (V2Step d bt bf sq) = ?i # steps_ids sq @ [?b]"
      using container by simp
    have E: "?E = Epre @ ?ec # steps_edges sq ?b @ ?eb # Epost"
      using container by simp
    have N: "?N = Npre @ step_node pos nested d # steps_nodes pos True sq
                   @ boundary_node pos nested d # Npost"
      using container by simp
    have nb: "next_of ?E ?i = Some (entry sq ?b)"
      unfolding E using next_of_hit [OF iE, of ?ec] by (simp add: compile_edge_def)
    have "next_of ((Epre @ ?ec # steps_edges sq ?b) @ ?eb # Epost) ?b = Some (target ?eb)"
      using "1.prems" edge_sources_of_steps(2) [of sq ?b] unfolding ids
      by (intro next_of_hit) (auto simp: compile_edge_def)
    then have nx: "next_of ?E ?b = Some k"
      unfolding E by (simp add: compile_edge_def)
    have "embeds ((Npre @ [step_node pos nested d]) @ steps_nodes pos True sq
                    @ (boundary_node pos nested d # Npost))
            ((Epre @ [?ec]) @ steps_edges sq ?b @ (?eb # Epost)) sq ?b"
      using "1.prems" container unfolding ids
      by (intro "1.IH"(3)) (auto simp: step_node_def compile_edge_def)
    then have eb: "embeds ?N ?E sq ?b"
      unfolding E N by simp
    from nd container nb nx eb show ?thesis by simp
  qed
next
  case 2
  show ?case by simp
next
  case (3 s rest)
  let ?N = "Npre @ steps_nodes pos nested (s # rest) @ Npost"
  let ?E = "Epre @ steps_edges (s # rest) k @ Epost"
  have "embeds_step (Npre @ step_nodes pos nested s @ (steps_nodes pos nested rest @ Npost))
          (Epre @ step_edges s (entry rest k) @ (steps_edges rest k @ Epost)) s (entry rest k)"
    using "3.prems" by (intro "3.IH"(1)) auto
  then have a: "embeds_step ?N ?E s (entry rest k)"
    by simp
  have "embeds ((Npre @ step_nodes pos nested s) @ steps_nodes pos nested rest @ Npost)
          ((Epre @ step_edges s (entry rest k)) @ steps_edges rest k @ Epost) rest k"
    using "3.prems" edge_sources_of_steps(1) [of s "entry rest k"]
    by (intro "3.IH"(2)) (auto simp: node_ids_of_steps)
  then have b: "embeds ?N ?E rest k"
    by simp
  from a b show ?case by simp
qed


lemma walk_compiled:
  assumes sh: "all_well_shaped sq"
    and di: "distinct (PROTECTED_NODE_IDS @ trigger_kinds @ steps_ids sq)"
  shows "walk (Suc (length (fst (compile sq ps origin))))
           (fst (compile sq ps origin)) (snd (compile sq ps origin)) ''start'' ''end'' = sq"
proof -
  define kinds where "kinds = filter (\<lambda>kind. map_of ps kind \<noteq> None) trigger_kinds"
  define lane where
    "lane = (if kinds = [] then [compile_edge ''trigger_start'' ''trigger_end'' None]
             else concat (map (\<lambda>kind. [compile_edge ''trigger_start'' kind None,
                                        compile_edge kind ''trigger_end'' None]) kinds))"
  let ?st = "sentinel_node origin ''start'' ''start''"
  let ?ts = "sentinel_node origin ''trigger_start'' ''trigger''"
  let ?te = "sentinel_node origin ''trigger_end'' ''trigger''"
  let ?en = "sentinel_node origin ''end'' ''end''"
  let ?e0 = "compile_edge ''start'' ''trigger_start'' None"
  let ?e3 = "compile_edge ''trigger_end'' (entry sq ''end'') None"
  define N where "N = fst (compile sq ps origin)"
  define E where "E = snd (compile sq ps origin)"
  have N: "N = ?st # ?ts # map (trigger_node origin ps) kinds @ ?te
                 # steps_nodes origin False sq @ [?en]"
    by (simp add: N_def compile_def kinds_def Let_def)
  have E: "E = ?e0 # lane @ ?e3 # steps_edges sq ''end''"
    by (simp add: E_def compile_def kinds_def lane_def Let_def)
  have ksub: "set kinds \<subseteq> set trigger_kinds"
    by (auto simp: kinds_def)
  have kid: "map node_id (map (trigger_node origin ps) kinds) = kinds"
    by (induction kinds) (simp_all add: trigger_node_def step_node_def)
  have lsrc: "\<forall>e \<in> set lane. source e = ''trigger_start'' \<or> source e \<in> set trigger_kinds"
    using ksub by (auto simp: lane_def compile_edge_def)
  have res: "''start'' \<notin> set (steps_ids sq)" "''end'' \<notin> set (steps_ids sq)"
    "''trigger_start'' \<notin> set (steps_ids sq)" "''trigger_end'' \<notin> set (steps_ids sq)"
    "set trigger_kinds \<inter> set (steps_ids sq) = {}" "distinct (steps_ids sq)"
    using di by (auto simp: PROTECTED_NODE_IDS_def)
  have tk: "''start'' \<notin> set trigger_kinds" "''end'' \<notin> set trigger_kinds"
    "''trigger_start'' \<notin> set trigger_kinds" "''trigger_end'' \<notin> set trigger_kinds"
    by (simp_all add: trigger_kinds_def)
  have len: "length N = 4 + length kinds + length (steps_ids sq)"
    using arg_cong [OF node_ids_of_steps(2) [of origin False sq], of length]
    by (simp add: N)
  \<comment> \<open>the main lane\<close>
  have em: "embeds N E sq ''end''"
  proof -
    have "embeds ((?st # ?ts # map (trigger_node origin ps) kinds @ [?te])
                    @ steps_nodes origin False sq @ [?en])
            ((?e0 # lane @ [?e3]) @ steps_edges sq ''end'' @ []) sq ''end''"
    proof (intro compile_embeds(2))
      show "distinct (steps_ids sq)" by (rule res(6))
      show "set (map node_id (?st # ?ts # map (trigger_node origin ps) kinds @ [?te]))
              \<inter> set (steps_ids sq) = {}"
        using res ksub kid by (auto simp: sentinel_node_def step_node_def)
      have "\<forall>e \<in> set (?e0 # lane @ [?e3]). source e \<notin> set (steps_ids sq)"
        using res lsrc by (auto simp: compile_edge_def)
      then show "set (map source (?e0 # lane @ [?e3])) \<inter> set (steps_ids sq) = {}"
        by (intro disjoint_map) blast
    qed
    then show ?thesis by (simp add: N E)
  qed
  have main: "walk m N E (entry sq ''end'') ''end'' = sq" if "length (steps_ids sq) < m" for m
    by (rule walk_embedded [OF sh em res(2) res(6) that])
  \<comment> \<open>the trigger lane\<close>
  have d_st: "node_data N ''start'' = Some (data ?st)"
    unfolding N using node_data_hit [of "''start''" "[]" ?st]
    by (simp add: sentinel_node_def step_node_def)
  have n_st: "next_of E ''start'' = Some ''trigger_start''"
    unfolding E using next_of_hit [of "''start''" "[]" ?e0]
    by (simp add: compile_edge_def)
  have d_ts: "node_data N ''trigger_start'' = Some (data ?ts)"
    unfolding N using node_data_hit [of "''trigger_start''" "[?st]" ?ts]
    by (simp add: sentinel_node_def step_node_def)
  have d_te: "node_data N ''trigger_end'' = Some (data ?te)"
  proof -
    have "node_data ((?st # ?ts # map (trigger_node origin ps) kinds) @ ?te
                       # steps_nodes origin False sq @ [?en]) ''trigger_end''
            = Some (data ?te)"
      using ksub tk kid
      by (intro node_data_hit) (auto simp: sentinel_node_def step_node_def)
    then show ?thesis by (simp add: N)
  qed
  have n_te: "next_of E ''trigger_end'' = Some (entry sq ''end'')"
  proof -
    have "next_of ((?e0 # lane) @ ?e3 # steps_edges sq ''end'') ''trigger_end''
            = Some (target ?e3)"
    proof (intro next_of_hit)
      have "\<forall>e \<in> set (?e0 # lane). source e \<noteq> ''trigger_end''"
        using lsrc tk by (auto simp: compile_edge_def)
      then show "''trigger_end'' \<notin> set (map source (?e0 # lane))"
        by (intro notin_map) blast
      show "source ?e3 = ''trigger_end''" by (simp add: compile_edge_def)
    qed
    then show ?thesis by (simp add: E compile_edge_def)
  qed
  have c_st: "componentType (data ?st) = ''start'' \<or> componentType (data ?st) = ''trigger''"
    and c_ts: "componentType (data ?ts) = ''start'' \<or> componentType (data ?ts) = ''trigger''"
    and c_te: "componentType (data ?te) = ''start'' \<or> componentType (data ?te) = ''trigger''"
    by (simp_all add: sentinel_node_def step_node_def)
  have from_te: "walk (Suc m) N E ''trigger_end'' ''end'' = sq"
    if "length (steps_ids sq) < m" for m
  proof -
    have "walk (Suc m) N E ''trigger_end'' ''end'' = walk m N E (entry sq ''end'') ''end''"
      by (rule walk_skip [OF _ d_te c_te n_te]) simp
    with main [OF that] show ?thesis by simp
  qed
  have from_st: "walk (Suc m) N E ''start'' ''end'' = walk m N E ''trigger_start'' ''end''" for m
    by (rule walk_skip [OF _ d_st c_st n_st]) simp
  show ?thesis
  proof (cases kinds)
    case Nil
    then have n_ts: "next_of E ''trigger_start'' = Some ''trigger_end''"
      unfolding E lane_def
      using next_of_hit [of "''trigger_start''" "[?e0]"
                            "compile_edge ''trigger_start'' ''trigger_end'' None"]
      by (simp add: compile_edge_def)
    have from_ts: "walk (Suc m) N E ''trigger_start'' ''end'' = walk m N E ''trigger_end'' ''end''"
      for m
      by (rule walk_skip [OF _ d_ts c_ts n_ts]) simp
    have fuel: "Suc (length N) = Suc (Suc (Suc (Suc (Suc (length (steps_ids sq))))))"
      using len Nil by simp
    have "walk (Suc (length N)) N E ''start'' ''end''
            = walk (Suc (Suc (Suc (length (steps_ids sq))))) N E ''trigger_end'' ''end''"
      unfolding fuel from_st from_ts ..
    also have "\<dots> = sq"
      by (rule from_te) simp
    finally show ?thesis
      unfolding N_def E_def .
  next
    case (Cons k1 ks)
    let ?t1 = "trigger_node origin ps k1"
    have k1: "k1 \<in> set trigger_kinds" "k1 \<noteq> ''end''" "k1 \<noteq> ''trigger_start''"
      "k1 \<noteq> ''start''"
      using ksub tk Cons by auto
    have n_ts: "next_of E ''trigger_start'' = Some k1"
      unfolding E lane_def Cons
      using next_of_hit [of "''trigger_start''" "[?e0]" "compile_edge ''trigger_start'' k1 None"]
      by (simp add: compile_edge_def)
    have d_k1: "node_data N k1 = Some (data ?t1)"
      unfolding N Cons
      using node_data_hit [of k1 "[?st, ?ts]" ?t1] k1
      by (simp add: sentinel_node_def step_node_def trigger_node_def)
    have n_k1: "next_of E k1 = Some ''trigger_end''"
      unfolding E lane_def Cons
      using next_of_hit [of k1 "[?e0, compile_edge ''trigger_start'' k1 None]"
                            "compile_edge k1 ''trigger_end'' None"] k1
      by (simp add: compile_edge_def)
    have c_k1: "componentType (data ?t1) = ''start'' \<or> componentType (data ?t1) = ''trigger''"
      by (simp add: trigger_node_def step_node_def)
    have from_ts: "walk (Suc m) N E ''trigger_start'' ''end'' = walk m N E k1 ''end''" for m
      by (rule walk_skip [OF _ d_ts c_ts n_ts]) simp
    have from_k1: "walk (Suc m) N E k1 ''end'' = walk m N E ''trigger_end'' ''end''" for m
      by (rule walk_skip [OF k1(2) d_k1 c_k1 n_k1])
    have fuel: "Suc (length N)
                  = Suc (Suc (Suc (Suc (Suc (Suc (length ks + length (steps_ids sq)))))))"
      using len Cons by simp
    have "walk (Suc (length N)) N E ''start'' ''end''
            = walk (Suc (Suc (Suc (length ks + length (steps_ids sq))))) N E
                ''trigger_end'' ''end''"
      unfolding fuel from_st from_ts from_k1 ..
    also have "\<dots> = sq"
      by (rule from_te) simp
    finally show ?thesis
      unfolding N_def E_def .
  qed
qed

text \<open>
  In the store: when the decompiler of the store is this one and the graph of the store
  is the graph compiled from a legal definition, \<open>updateDefinition\<close> (lines 435-462)
  stores that definition, wrapped with the verdict of the validators.
\<close>

lemma updateDefinition_of_compiled:
  assumes "reConstructWorklowToDefinition d = decompile"
    and "all_well_shaped sq"
    and "distinct (PROTECTED_NODE_IDS @ trigger_kinds @ steps_ids sq)"
    and "nodes st = fst (compile sq ps origin)"
    and "edges st = snd (compile sq ps origin)"
    and "v2Properties st = ps"
  shows "wf_definition (updateDefinition d st)
           = Some (wrapDefinitionV2 d \<lparr> def_sequence = sq, def_properties = ps \<rparr>
                     (res_isValid (validateDefinition d st
                                     \<lparr> def_sequence = sq, def_properties = ps \<rparr>)))"
  using assms(1,4,5,6) walk_compiled [OF assms(2,3), of ps origin]
  by (simp add: updateDefinition_def decompile_def Let_def)

text \<open>
  Claim C7. For every legally constructed definition, decompiling the graph compiled
  from it, at any origin, gives the definition back: the same sequence, step by step
  with all its data, and the same properties. Positions are not part of a definition,
  so nothing has to be ignored.
\<close>

theorem decompile_compile:
  assumes "legal D"
  shows "decompile (fst (compile (def_sequence D) (def_properties D) origin))
           (snd (compile (def_sequence D) (def_properties D) origin)) (def_properties D)
         = (def_sequence D, def_properties D)"
  using assms walk_compiled [of "def_sequence D" "def_properties D" origin]
  by (simp add: legal_def decompile_def)

theorem decompile_compile_witness:
  "legal sample_tree_definition
   \<and> decompile (fst (compile sample_tree [(''manual'', JStr ''true'')] \<lparr> x = 0, y = 50 \<rparr>))
         (snd (compile sample_tree [(''manual'', JStr ''true'')] \<lparr> x = 0, y = 50 \<rparr>))
         [(''manual'', JStr ''true'')]
       = (sample_tree, [(''manual'', JStr ''true'')])
   \<and> map node_id (fst (compile sample_tree [(''manual'', JStr ''true'')] \<lparr> x = 0, y = 50 \<rparr>))
       = [''start'', ''trigger_start'', ''manual'', ''trigger_end'', ''a'', ''sw'', ''t1'',
          ''fe'', ''b1'', ''sw2'', ''f2'', ''t2'', ''foreach__end__fe'', ''sw3'', ''end'']"
proof -
  have l: "legal sample_tree_definition"
    by code_simp
  have n: "map node_id (fst (compile sample_tree [(''manual'', JStr ''true'')] \<lparr> x = 0, y = 50 \<rparr>))
       = [''start'', ''trigger_start'', ''manual'', ''trigger_end'', ''a'', ''sw'', ''t1'',
          ''fe'', ''b1'', ''sw2'', ''f2'', ''t2'', ''foreach__end__fe'', ''sw3'', ''end'']"
    by code_simp
  from decompile_compile [OF l, of "\<lparr> x = 0, y = 50 \<rparr>"] l n show ?thesis
    by (simp add: sample_tree_definition_def)
qed

end
